theory Spec2Isabelle
  imports Complex_Main
begin

section \<open>JavaScript values\<close>

text \<open>
  The validators receive a value of type \<^verbatim>\<open>unknown\<close>. The embedding covers the data values
  of JavaScript: \<^verbatim>\<open>undefined\<close>, \<^verbatim>\<open>null\<close>, booleans, numbers, strings, \<^verbatim>\<open>Date\<close> instances, arrays
  and ordinary objects. A number is a finite value or one of \<^verbatim>\<open>NaN\<close>, \<^verbatim>\<open>Infinity\<close>,
  \<^verbatim>\<open>-Infinity\<close>; a finite double is represented by the rational it denotes. A \<^verbatim>\<open>Date\<close> carries
  its time value (\<^verbatim>\<open>NaN\<close> for an invalid date). A function is known by its name only. An
  ordinary object carries its prototype and its own data properties in enumeration order.
  The prototype is none, \<^verbatim>\<open>Object.prototype\<close>, a prototype whose chain reaches
  \<^verbatim>\<open>Date.prototype\<close> (as that of \<^verbatim>\<open>Object.create(Date.prototype)\<close>: such an object passes
  \<^verbatim>\<open>instanceof Date\<close> and is not a date), or some other prototype object, named. A hole of a
  sparse array reads as \<^verbatim>\<open>undefined\<close>.

  Values are compared structurally. Object identity, accessor properties of the input,
  proxies, the members of prototypes other than \<^verbatim>\<open>Object.prototype\<close> and members added to
  \<^verbatim>\<open>Object.prototype\<close> by the program are not represented.
\<close>

datatype jsnum = Finite rat | NaN | PosInfinity | NegInfinity

datatype proto = NullPrototype | ObjectPrototype | DatePrototype | OtherPrototype string

datatype jsval =
    Undefined
  | Null
  | Boolean bool
  | Number jsnum
  | String string
  | Date jsnum
  | Array "jsval list"
  | Function string
  | Object proto "(string \<times> jsval) list"

text \<open>
  An operation of the language either returns a value or throws. \<^verbatim>\<open>raise\<close> of util.ts throws
  \<^verbatim>\<open>new Error(message, { cause })\<close>; the cause is not represented.
\<close>

datatype exn = TypeError | Error string

datatype 'a outcome = Throw exn | Return 'a

fun typeof :: "jsval \<Rightarrow> string" where
  "typeof Undefined = ''undefined''"
| "typeof Null = ''object''"
| "typeof (Boolean b) = ''boolean''"
| "typeof (Number n) = ''number''"
| "typeof (String s) = ''string''"
| "typeof (Date t) = ''object''"
| "typeof (Array xs) = ''object''"
| "typeof (Function f) = ''function''"
| "typeof (Object p props) = ''object''"

text \<open>\<^verbatim>\<open>Number.isFinite(v)\<close>: true exactly for a number that is neither NaN nor infinite.\<close>

fun Number_isFinite :: "jsval \<Rightarrow> bool" where
  "Number_isFinite (Number (Finite q)) = True"
| "Number_isFinite v = False"

text \<open>\<^verbatim>\<open>Array.isArray(v)\<close>, and the elements of an array, of which \<^verbatim>\<open>v.length\<close> is the length and
  \<^verbatim>\<open>v[i]\<close> the element at \<^verbatim>\<open>i\<close>.\<close>

fun isArray :: "jsval \<Rightarrow> bool" where
  "isArray (Array xs) = True"
| "isArray v = False"

fun elements :: "jsval \<Rightarrow> jsval list" where
  "elements (Array xs) = xs"
| "elements v = []"

text \<open>\<^verbatim>\<open>v instanceof Date\<close>: whether the prototype chain of \<^verbatim>\<open>v\<close> reaches \<^verbatim>\<open>Date.prototype\<close>. It
  holds of a date, and of an object that inherits from \<^verbatim>\<open>Date.prototype\<close> without being one.\<close>

fun instanceofDate :: "jsval \<Rightarrow> bool" where
  "instanceofDate (Date t) = True"
| "instanceofDate (Object DatePrototype props) = True"
| "instanceofDate v = False"

text \<open>\<^verbatim>\<open>v.getTime()\<close>: the time value of a date; a TypeError on every other receiver: on
  \<^verbatim>\<open>undefined\<close> and \<^verbatim>\<open>null\<close> no property can be read, an object that inherits \<^verbatim>\<open>getTime\<close> from
  \<^verbatim>\<open>Date.prototype\<close> and is not a date is refused by the method, and any other value has no
  such method.\<close>

fun getTime :: "jsval \<Rightarrow> jsval outcome" where
  "getTime (Date t) = Return (Number t)"
| "getTime v = Throw TypeError"

text \<open>\<^verbatim>\<open>new Date(d)\<close> for a date \<^verbatim>\<open>d\<close>: a fresh date with the same time value.\<close>

fun newDate :: "jsval \<Rightarrow> jsval" where
  "newDate (Date t) = Date t"
| "newDate v = Date NaN"

text \<open>\<^verbatim>\<open>Object.getPrototypeOf(v)\<close>: a TypeError on \<^verbatim>\<open>undefined\<close> and \<^verbatim>\<open>null\<close>; primitives,
  dates, arrays and functions have their built-in prototype, which is neither null nor
  \<^verbatim>\<open>Object.prototype\<close>.\<close>

fun getPrototypeOf :: "jsval \<Rightarrow> proto outcome" where
  "getPrototypeOf Undefined = Throw TypeError"
| "getPrototypeOf Null = Throw TypeError"
| "getPrototypeOf (Boolean b) = Return (OtherPrototype ''Boolean'')"
| "getPrototypeOf (Number n) = Return (OtherPrototype ''Number'')"
| "getPrototypeOf (String s) = Return (OtherPrototype ''String'')"
| "getPrototypeOf (Date t) = Return DatePrototype"
| "getPrototypeOf (Array xs) = Return (OtherPrototype ''Array'')"
| "getPrototypeOf (Function f) = Return (OtherPrototype ''Function'')"
| "getPrototypeOf (Object p props) = Return p"

text \<open>Reading and writing an own property of a property list.\<close>

fun lookup :: "(string \<times> jsval) list \<Rightarrow> string \<Rightarrow> jsval" where
  "lookup [] key = Undefined"
| "lookup ((k, v) # props) key = (if k = key then v else lookup props key)"

fun assign :: "(string \<times> jsval) list \<Rightarrow> string \<Rightarrow> jsval \<Rightarrow> (string \<times> jsval) list" where
  "assign [] key v = [(key, v)]"
| "assign ((k, w) # props) key v =
     (if k = key then (k, v) # props else (k, w) # assign props key v)"

text \<open>The properties of \<^verbatim>\<open>Object.prototype\<close>, as read on \<^verbatim>\<open>Object.prototype\<close> itself: its
  methods, and \<^verbatim>\<open>__proto__\<close>, which there reads as \<^verbatim>\<open>null\<close>.\<close>

definition Object_prototype_members :: "(string \<times> jsval) list" where
  "Object_prototype_members =
     [(''constructor'', Function ''Object''),
      (''__defineGetter__'', Function ''__defineGetter__''),
      (''__defineSetter__'', Function ''__defineSetter__''),
      (''hasOwnProperty'', Function ''hasOwnProperty''),
      (''__lookupGetter__'', Function ''__lookupGetter__''),
      (''__lookupSetter__'', Function ''__lookupSetter__''),
      (''isPrototypeOf'', Function ''isPrototypeOf''),
      (''propertyIsEnumerable'', Function ''propertyIsEnumerable''),
      (''toString'', Function ''toString''),
      (''valueOf'', Function ''valueOf''),
      (''toLocaleString'', Function ''toLocaleString''),
      (''__proto__'', Null)]"

definition Object_prototype :: jsval where
  "Object_prototype = Object NullPrototype Object_prototype_members"

text \<open>What an object that has no own property \<^verbatim>\<open>key\<close> reads under \<^verbatim>\<open>key\<close> from its prototype:
  nothing without a prototype; under \<^verbatim>\<open>Object.prototype\<close> the member of that name, where
  \<^verbatim>\<open>__proto__\<close> reads as the prototype of the reader, which is \<^verbatim>\<open>Object.prototype\<close>. The members
  of the other prototypes are not represented.\<close>

fun inherited :: "proto \<Rightarrow> string \<Rightarrow> jsval" where
  "inherited ObjectPrototype key =
     (if key = ''__proto__'' then Object_prototype else lookup Object_prototype_members key)"
| "inherited p key = Undefined"

text \<open>\<^verbatim>\<open>v[key]\<close>: a TypeError on \<^verbatim>\<open>undefined\<close> and \<^verbatim>\<open>null\<close>; on an object its own property
  \<^verbatim>\<open>key\<close> when it has one, and what it inherits under \<^verbatim>\<open>key\<close> otherwise. The validators read
  the properties of plain objects only; the last equation stands for the other values.\<close>

fun getProp :: "jsval \<Rightarrow> string \<Rightarrow> jsval outcome" where
  "getProp Undefined key = Throw TypeError"
| "getProp Null key = Throw TypeError"
| "getProp (Object p props) key =
     Return (if key \<in> fst ` set props then lookup props key else inherited p key)"
| "getProp v key = Return Undefined"

text \<open>\<^verbatim>\<open>i.toString()\<close> for a loop index: its decimal numeral.\<close>

definition digit :: "nat \<Rightarrow> char" where
  "digit d = ''0123456789'' ! d"

function toString :: "nat \<Rightarrow> string" where
  "toString i = (if i < 10 then [digit i] else toString (i div 10) @ [digit (i mod 10)])"
  by pat_completeness auto
termination
  by (relation "measure (\<lambda>i. i)") auto

declare toString.simps [simp del]

text \<open>
  The order in which \<^verbatim>\<open>for (const key in obj)\<close> visits the own properties of an object that
  was written with the given fields, in that order and under distinct names: first the
  names that are array indices (the decimal numerals without leading zero up to
  \<open>2\<^sup>3\<^sup>2 - 2\<close>), in ascending numeric order, then the other names in the order in which they
  were written.
\<close>

definition is_digit :: "char \<Rightarrow> bool" where
  "is_digit c = (c \<in> set ''0123456789'')"

definition digit_value :: "char \<Rightarrow> nat" where
  "digit_value c = length (takeWhile (\<lambda>d. d \<noteq> c) ''0123456789'')"

definition numeral_value :: "string \<Rightarrow> nat" where
  "numeral_value k = foldl (\<lambda>n c. 10 * n + digit_value c) 0 k"

definition is_array_index :: "string \<Rightarrow> bool" where
  "is_array_index k =
     (k \<noteq> [] \<and> list_all is_digit k \<and> (hd k = CHR ''0'' \<longrightarrow> k = ''0'') \<and>
      numeral_value k \<le> 4294967294)"

definition for_in :: "(string \<times> 'a) list \<Rightarrow> (string \<times> 'a) list" where
  "for_in fields =
     sort_key (\<lambda>f. numeral_value (fst f)) (filter (\<lambda>f. is_array_index (fst f)) fields) @
     filter (\<lambda>f. \<not> is_array_index (fst f)) fields"

section \<open>util.ts\<close>

definition isNil :: "jsval \<Rightarrow> bool" where
  "isNil v = (typeof v = ''undefined'' \<or> v = Null)"

definition isPresent :: "jsval \<Rightarrow> bool" where
  "isPresent v = (\<not> isNil v)"

definition isPlainObject :: "jsval \<Rightarrow> bool outcome" where
  "isPlainObject inp =
     (if isNil inp then Return False
      else case getPrototypeOf inp of
             Throw x \<Rightarrow> Throw x
           | Return proto \<Rightarrow> Return (proto = NullPrototype \<or> proto = ObjectPrototype))"

definition raise :: "string \<Rightarrow> 'a outcome" where
  "raise msg = Throw (Error msg)"

section \<open>result.ts\<close>

datatype ('t, 'e) result = Ok 't | Err 'e

fun isOk :: "('t, 'e) result \<Rightarrow> bool" where
  "isOk (Ok v) = True"
| "isOk (Err e) = False"

definition isErr :: "('t, 'e) result \<Rightarrow> bool" where
  "isErr r = (\<not> isOk r)"

fun match_result :: "('t, 'e) result \<Rightarrow> ('t \<Rightarrow> 'u) \<Rightarrow> ('e \<Rightarrow> 'u) \<Rightarrow> 'u" where
  "match_result (Ok v) onOk onErr = onOk v"
| "match_result (Err e) onOk onErr = onErr e"

definition map_result :: "('t, 'e) result \<Rightarrow> ('t \<Rightarrow> 'u) \<Rightarrow> ('u, 'e) result" where
  "map_result r fn = match_result r (\<lambda>v. Ok (fn v)) (\<lambda>e. Err e)"

definition unwrap :: "('t, 'e) result \<Rightarrow> 't outcome" where
  "unwrap r = match_result r Return (\<lambda>e. raise ''called `Result.unwrap` on an `Err` value'')"

definition unwrapErr :: "('t, 'e) result \<Rightarrow> 'e outcome" where
  "unwrapErr r = match_result r (\<lambda>v. raise ''called `Result.unwrapErr` on an `Ok` value'') Return"

definition expect :: "('t, 'e) result \<Rightarrow> string \<Rightarrow> 't outcome" where
  "expect r msg = match_result r Return (\<lambda>e. raise msg)"

section \<open>option.ts\<close>

text \<open>An option is itself a JavaScript object: \<^verbatim>\<open>{ some: false }\<close> or
  \<^verbatim>\<open>{ some: true, value }\<close>.\<close>

definition SomeV :: "jsval \<Rightarrow> jsval" where
  "SomeV v = Object ObjectPrototype [(''some'', Boolean True), (''value'', v)]"

definition NoneV :: "jsval" where
  "NoneV = Object ObjectPrototype [(''some'', Boolean False)]"

definition from_option :: "jsval \<Rightarrow> jsval" where
  "from_option v = (if isNil v then NoneV else SomeV v)"

section \<open>schema.ts\<close>

record ParseError =
  path :: "string list"
  message :: string
  input :: jsval

text \<open>
  A schema is an object with a \<^verbatim>\<open>type\<close> label and a \<^verbatim>\<open>parse\<close> function; an object schema has a
  \<^verbatim>\<open>shape\<close> as well. The type is parametrised by what \<^verbatim>\<open>parse\<close> returns. A shape is the list
  of its fields in the order in which \<^verbatim>\<open>for (const key in shape)\<close> enumerates them: for a shape
  written with the fields \<^verbatim>\<open>decl\<close> that is \<^term>\<open>for_in decl\<close>.
\<close>

datatype 'r Schema =
  Schema (type: string) (parse: "jsval \<Rightarrow> 'r") (shape: "(string \<times> 'r Schema) list option")

type_synonym parsed = "(jsval, ParseError) result outcome"

type_synonym schema = "parsed Schema"

definition createErr :: "string \<Rightarrow> jsval \<Rightarrow> (jsval, ParseError) result" where
  "createErr msg inp = Err \<lparr>path = [], message = msg, input = inp\<rparr>"

definition string :: schema where
  "string = Schema ''string''
     (\<lambda>inp. if typeof inp = ''string'' then Return (Ok inp)
            else Return (createErr ''Expecting string'' inp))
     None"

definition number :: schema where
  "number = Schema ''number''
     (\<lambda>inp. if typeof inp = ''number'' \<and> Number_isFinite inp then Return (Ok inp)
            else Return (createErr ''Expecting number'' inp))
     None"

definition boolean :: schema where
  "boolean = Schema ''boolean''
     (\<lambda>inp. if typeof inp = ''boolean'' then Return (Ok inp)
            else Return (createErr ''Expecting boolean'' inp))
     None"

definition date :: schema where
  "date = Schema ''date''
     (\<lambda>inp. if instanceofDate inp
            then (case getTime inp of
                    Throw x \<Rightarrow> Throw x
                  | Return t \<Rightarrow>
                      if Number_isFinite t then Return (Ok (newDate inp))
                      else Return (createErr ''Expecting valid date'' inp))
            else Return (createErr ''Expecting valid date'' inp))
     None"

text \<open>
  The loop of \<^verbatim>\<open>array\<close>: \<^verbatim>\<open>i\<close> is the loop index and \<^verbatim>\<open>arr\<close> the array under construction.
  \<^verbatim>\<open>isErr(result)\<close> tests the tag of the result, which is the case distinction below.
  \<^verbatim>\<open>result.error.path.unshift(i.toString())\<close> changes the error the child returned and the
  loop returns that same result; here the updated error is returned. The constructors make
  their errors with \<^verbatim>\<open>createErr\<close> at each call, so the change is seen nowhere else.
\<close>

function array_loop :: "schema \<Rightarrow> jsval list \<Rightarrow> nat \<Rightarrow> jsval list \<Rightarrow> parsed" where
  "array_loop sch inp i arr =
     (if i < length inp then
        (case parse sch (inp ! i) of
           Throw x \<Rightarrow> Throw x
         | Return (Err e) \<Rightarrow> Return (Err (e\<lparr>path := toString i # path e\<rparr>))
         | Return (Ok v) \<Rightarrow> array_loop sch inp (i + 1) (arr[i := v]))
      else Return (Ok (Array arr)))"
  by pat_completeness auto
termination
  by (relation "measure (\<lambda>(sch, inp, i, arr). length inp - i)") auto

declare array_loop.simps [simp del]

definition array :: "schema \<Rightarrow> schema" where
  "array sch = Schema (''array<'' @ type sch @ ''>'')
     (\<lambda>inp. if \<not> isArray inp then Return (createErr ''Expecting array'' inp)
            else array_loop sch (elements inp) 0 (replicate (length (elements inp)) Undefined))
     None"

text \<open>
  The loop of \<^verbatim>\<open>object\<close>: the remaining fields of the shape, the input, and the properties
  of \<^verbatim>\<open>obj\<close>, which starts as \<^verbatim>\<open>Object.create(null)\<close>.
\<close>

fun object_loop :: "(string \<times> schema) list \<Rightarrow> jsval \<Rightarrow> (string \<times> jsval) list \<Rightarrow> parsed" where
  "object_loop [] inp obj = Return (Ok (Object NullPrototype obj))"
| "object_loop ((key, sch) # rest) inp obj =
     (case getProp inp key of
        Throw x \<Rightarrow> Throw x
      | Return field \<Rightarrow>
          (case parse sch field of
             Throw x \<Rightarrow> Throw x
           | Return (Err e) \<Rightarrow> Return (Err (e\<lparr>path := key # path e\<rparr>))
           | Return (Ok v) \<Rightarrow> object_loop rest inp (assign obj key v)))"

definition object :: "(string \<times> schema) list \<Rightarrow> schema" where
  "object shp = Schema ''object''
     (\<lambda>inp. case isPlainObject inp of
              Throw x \<Rightarrow> Throw x
            | Return plain \<Rightarrow>
                if \<not> plain then Return (createErr ''Expecting object'' inp)
                else object_loop shp inp [])
     (Some shp)"

text \<open>\<^verbatim>\<open>optional\<close> and \<^verbatim>\<open>defaulted\<close> spread the child (\<^verbatim>\<open>...schema\<close>) and then set their own
  fields: what they do not set (the \<^verbatim>\<open>shape\<close>; for \<^verbatim>\<open>defaulted\<close> the \<^verbatim>\<open>type\<close> too) is the
  child's.\<close>

definition optional :: "schema \<Rightarrow> schema" where
  "optional sch = Schema (''option<'' @ type sch @ ''>'')
     (\<lambda>inp. if isNil inp then Return (Ok NoneV)
            else (case parse sch inp of
                    Throw x \<Rightarrow> Throw x
                  | Return r \<Rightarrow> Return (map_result r from_option)))
     (shape sch)"

definition defaulted :: "schema \<Rightarrow> jsval \<Rightarrow> schema" where
  "defaulted sch defaultValue = Schema (type sch)
     (\<lambda>inp. if isNil inp then Return (Ok defaultValue) else parse sch inp)
     (shape sch)"

text \<open>The schemas that the constructors of schema.ts build. The fields of a shape have
  distinct names, as the keys of an object have.\<close>

inductive built :: "schema \<Rightarrow> bool" where
  built_string: "built string"
| built_number: "built number"
| built_boolean: "built boolean"
| built_date: "built date"
| built_array: "built sch \<Longrightarrow> built (array sch)"
| built_object: "distinct (map fst shp) \<Longrightarrow> (\<forall>f \<in> set shp. built (snd f)) \<Longrightarrow> built (object shp)"
| built_optional: "built sch \<Longrightarrow> built (optional sch)"
| built_defaulted: "built sch \<Longrightarrow> built (defaulted sch defaultValue)"

text \<open>The schemas built from \<^verbatim>\<open>string\<close>, \<^verbatim>\<open>number\<close>, \<^verbatim>\<open>boolean\<close>, \<^verbatim>\<open>array\<close> and \<^verbatim>\<open>object\<close> alone.\<close>

inductive plain_schema :: "schema \<Rightarrow> bool" where
  plain_string: "plain_schema string"
| plain_number: "plain_schema number"
| plain_boolean: "plain_schema boolean"
| plain_array: "plain_schema sch \<Longrightarrow> plain_schema (array sch)"
| plain_object:
    "distinct (map fst shp) \<Longrightarrow> (\<forall>f \<in> set shp. plain_schema (snd f)) \<Longrightarrow> plain_schema (object shp)"

section \<open>mod.ts\<close>

text \<open>
  mod.ts is a second schema module, written against the package oxido, whose results are
  objects with methods. src/ does not hold oxido. The run of a \<^verbatim>\<open>parse\<close> of mod.ts is
  modelled with the sequence of fatal accessors (\<^verbatim>\<open>unwrap\<close>, \<^verbatim>\<open>unwrapErr\<close>, \<^verbatim>\<open>expect\<close>) that it
  invokes, in order, next to its outcome.
\<close>

datatype accessor = Unwrap | UnwrapErr | Expect

type_synonym 'a traced = "accessor list \<times> 'a outcome"

type_synonym mod_parsed = "(jsval, ParseError) result traced"

type_synonym mod_schema = "mod_parsed Schema"

text \<open>Modelled from the spec: \<^verbatim>\<open>result.isErr()\<close> of oxido, the test for the \<^verbatim>\<open>Err\<close> variant;
  \<^verbatim>\<open>Ok\<close> and \<^verbatim>\<open>Err\<close> of oxido are the two variants of \<^typ>\<open>('t, 'e) result\<close>.\<close>

definition oxido_isErr :: "('t, 'e) result \<Rightarrow> bool" where
  "oxido_isErr r = isErr r"

text \<open>Modelled from the spec: \<^verbatim>\<open>result.unwrap()\<close> of oxido, a fatal accessor: the value of an
  \<^verbatim>\<open>Ok\<close>, an abort on an \<^verbatim>\<open>Err\<close>. The invocation is recorded.\<close>

definition oxido_unwrap :: "('t, 'e) result \<Rightarrow> 't traced" where
  "oxido_unwrap r = ([Unwrap], unwrap r)"

text \<open>Modelled from the spec: \<^verbatim>\<open>result.unwrapErr()\<close> of oxido, a fatal accessor: the error of
  an \<^verbatim>\<open>Err\<close>, an abort on an \<^verbatim>\<open>Ok\<close>. The invocation is recorded.\<close>

definition oxido_unwrapErr :: "('t, 'e) result \<Rightarrow> 'e traced" where
  "oxido_unwrapErr r = ([UnwrapErr], unwrapErr r)"

text \<open>Modelled from the spec: \<^verbatim>\<open>result.map(fn)\<close> of oxido.\<close>

definition oxido_map :: "('t, 'e) result \<Rightarrow> ('t \<Rightarrow> 'u) \<Rightarrow> ('u, 'e) result" where
  "oxido_map r fn = map_result r fn"

definition mod_createErr :: "string \<Rightarrow> jsval \<Rightarrow> (jsval, ParseError) result" where
  "mod_createErr msg inp = Err \<lparr>path = [], message = msg, input = inp\<rparr>"

definition mod_isPlainObject :: "jsval \<Rightarrow> bool outcome" where
  "mod_isPlainObject inp =
     (if typeof inp = ''undefined'' \<or> inp = Null then Return False
      else case getPrototypeOf inp of
             Throw x \<Rightarrow> Throw x
           | Return proto \<Rightarrow> Return (proto = NullPrototype \<or> proto = ObjectPrototype))"

definition mod_string :: mod_schema where
  "mod_string = Schema ''string''
     (\<lambda>inp. if typeof inp = ''string'' then ([], Return (Ok inp))
            else ([], Return (mod_createErr ''Not a string'' inp)))
     None"

definition mod_number :: mod_schema where
  "mod_number = Schema ''number''
     (\<lambda>inp. if typeof inp = ''number'' \<and> Number_isFinite inp then ([], Return (Ok inp))
            else ([], Return (mod_createErr ''Expecting finite number'' inp)))
     None"

definition mod_boolean :: mod_schema where
  "mod_boolean = Schema ''boolean''
     (\<lambda>inp. if typeof inp = ''boolean'' then ([], Return (Ok inp))
            else ([], Return (mod_createErr ''Expecting boolean'' inp)))
     None"

definition mod_date :: mod_schema where
  "mod_date = Schema ''date''
     (\<lambda>inp. if instanceofDate inp
            then (case getTime inp of
                    Throw x \<Rightarrow> ([], Throw x)
                  | Return t \<Rightarrow>
                      if Number_isFinite t then ([], Return (Ok (newDate inp)))
                      else ([], Return (mod_createErr ''Expecting valid date'' inp)))
            else ([], Return (mod_createErr ''Expecting valid date'' inp)))
     None"

text \<open>The loop of \<^verbatim>\<open>array\<close> in mod.ts; \<^verbatim>\<open>trace\<close> holds the fatal accessors invoked so far.\<close>

function mod_array_loop ::
  "mod_schema \<Rightarrow> jsval list \<Rightarrow> nat \<Rightarrow> jsval list \<Rightarrow> accessor list \<Rightarrow> mod_parsed" where
  "mod_array_loop sch inp i arr trace =
     (if i < length inp then
        (case parse sch (inp ! i) of
           (t, Throw x) \<Rightarrow> (trace @ t, Throw x)
         | (t, Return r) \<Rightarrow>
             if oxido_isErr r then
               (case oxido_unwrapErr r of
                  (u, Throw x) \<Rightarrow> (trace @ t @ u, Throw x)
                | (u, Return e) \<Rightarrow>
                    (trace @ t @ u, Return (Err (e\<lparr>path := toString i # path e\<rparr>))))
             else
               (case oxido_unwrap r of
                  (u, Throw x) \<Rightarrow> (trace @ t @ u, Throw x)
                | (u, Return v) \<Rightarrow>
                    mod_array_loop sch inp (i + 1) (arr[i := v]) (trace @ t @ u)))
      else (trace, Return (Ok (Array arr))))"
  by pat_completeness auto
termination
  by (relation "measure (\<lambda>(sch, inp, i, arr, trace). length inp - i)") auto

declare mod_array_loop.simps [simp del]

definition mod_array :: "mod_schema \<Rightarrow> mod_schema" where
  "mod_array sch = Schema (''array<'' @ type sch @ ''>'')
     (\<lambda>inp. if \<not> isArray inp then ([], Return (mod_createErr ''Expecting array'' inp))
            else mod_array_loop sch (elements inp) 0 (replicate (length (elements inp)) Undefined) [])
     None"

fun mod_object_loop ::
  "(string \<times> mod_schema) list \<Rightarrow> jsval \<Rightarrow> (string \<times> jsval) list \<Rightarrow> accessor list \<Rightarrow> mod_parsed"
  where
  "mod_object_loop [] inp obj trace = (trace, Return (Ok (Object NullPrototype obj)))"
| "mod_object_loop ((key, sch) # rest) inp obj trace =
     (case getProp inp key of
        Throw x \<Rightarrow> (trace, Throw x)
      | Return field \<Rightarrow>
          (case parse sch field of
             (t, Throw x) \<Rightarrow> (trace @ t, Throw x)
           | (t, Return r) \<Rightarrow>
               if oxido_isErr r then
                 (case oxido_unwrapErr r of
                    (u, Throw x) \<Rightarrow> (trace @ t @ u, Throw x)
                  | (u, Return e) \<Rightarrow> (trace @ t @ u, Return (Err (e\<lparr>path := key # path e\<rparr>))))
               else
                 (case oxido_unwrap r of
                    (u, Throw x) \<Rightarrow> (trace @ t @ u, Throw x)
                  | (u, Return v) \<Rightarrow>
                      mod_object_loop rest inp (assign obj key v) (trace @ t @ u))))"

definition mod_object :: "(string \<times> mod_schema) list \<Rightarrow> mod_schema" where
  "mod_object shp = Schema ''object''
     (\<lambda>inp. case mod_isPlainObject inp of
              Throw x \<Rightarrow> ([], Throw x)
            | Return plain \<Rightarrow>
                if \<not> plain then ([], Return (mod_createErr ''Expecting object'' inp))
                else mod_object_loop shp inp [] [])
     (Some shp)"

text \<open>\<^verbatim>\<open>Some\<close> and \<^verbatim>\<open>None\<close> of oxido are not in src/: \<^verbatim>\<open>optional\<close> takes them as the parameters
  \<^verbatim>\<open>oSome\<close> and \<^verbatim>\<open>oNone\<close>.\<close>

definition mod_optional :: "(jsval \<Rightarrow> jsval) \<Rightarrow> jsval \<Rightarrow> mod_schema \<Rightarrow> mod_schema" where
  "mod_optional oSome oNone sch = Schema (''option<'' @ type sch @ ''>'')
     (\<lambda>inp. if typeof inp = ''undefined'' \<or> inp = Null then ([], Return (Ok oNone))
            else (case parse sch inp of
                    (t, Throw x) \<Rightarrow> (t, Throw x)
                  | (t, Return r) \<Rightarrow> (t, Return (oxido_map r (\<lambda>v. oSome v)))))
     (shape sch)"

definition mod_defaulted :: "mod_schema \<Rightarrow> jsval \<Rightarrow> mod_schema" where
  "mod_defaulted sch defaultValue = Schema (type sch)
     (\<lambda>inp. if typeof inp = ''undefined'' \<or> inp = Null then ([], Return (Ok defaultValue))
            else parse sch inp)
     (shape sch)"

text \<open>The schemas that the constructors of mod.ts build.\<close>

inductive mod_built :: "(jsval \<Rightarrow> jsval) \<Rightarrow> jsval \<Rightarrow> mod_schema \<Rightarrow> bool"
  for oSome :: "jsval \<Rightarrow> jsval" and oNone :: jsval where
  mod_built_string: "mod_built oSome oNone mod_string"
| mod_built_number: "mod_built oSome oNone mod_number"
| mod_built_boolean: "mod_built oSome oNone mod_boolean"
| mod_built_date: "mod_built oSome oNone mod_date"
| mod_built_array: "mod_built oSome oNone sch \<Longrightarrow> mod_built oSome oNone (mod_array sch)"
| mod_built_object:
    "distinct (map fst shp) \<Longrightarrow> (\<forall>f \<in> set shp. mod_built oSome oNone (snd f)) \<Longrightarrow>
     mod_built oSome oNone (mod_object shp)"
| mod_built_optional:
    "mod_built oSome oNone sch \<Longrightarrow> mod_built oSome oNone (mod_optional oSome oNone sch)"
| mod_built_defaulted:
    "mod_built oSome oNone sch \<Longrightarrow> mod_built oSome oNone (mod_defaulted sch defaultValue)"

section \<open>Comparing the two modules\<close>

text \<open>The messages of mod.ts, as a function of those of schema.ts.\<close>

definition mod_message :: "string \<Rightarrow> string" where
  "mod_message m =
     (if m = ''Expecting string'' then ''Not a string''
      else if m = ''Expecting number'' then ''Expecting finite number''
      else m)"

text \<open>Two outcomes agree up to the message: both throw the same exception, both succeed
  with the same value, or both fail with the same path and offending input and with
  messages related by \<^const>\<open>mod_message\<close>.\<close>

fun agree :: "parsed \<Rightarrow> parsed \<Rightarrow> bool" where
  "agree (Throw x) (Throw y) = (x = y)"
| "agree (Return (Ok v)) (Return (Ok w)) = (v = w)"
| "agree (Return (Err e)) (Return (Err d)) =
     (path d = path e \<and> input d = input e \<and> message d = mod_message (message e))"
| "agree p q = False"

text \<open>A schema of schema.ts and a schema of mod.ts built in the same way from \<^verbatim>\<open>string\<close>,
  \<^verbatim>\<open>number\<close>, \<^verbatim>\<open>boolean\<close>, \<^verbatim>\<open>date\<close>, \<^verbatim>\<open>array\<close>, \<^verbatim>\<open>object\<close> and \<^verbatim>\<open>defaulted\<close>.\<close>

inductive same_build :: "schema \<Rightarrow> mod_schema \<Rightarrow> bool" where
  same_string: "same_build string mod_string"
| same_number: "same_build number mod_number"
| same_boolean: "same_build boolean mod_boolean"
| same_date: "same_build date mod_date"
| same_array: "same_build s m \<Longrightarrow> same_build (array s) (mod_array m)"
| same_object:
    "length shp = length mshp \<Longrightarrow>
     (\<forall>i < length shp. fst (shp ! i) = fst (mshp ! i) \<and> same_build (snd (shp ! i)) (snd (mshp ! i))) \<Longrightarrow>
     same_build (object shp) (mod_object mshp)"
| same_defaulted: "same_build s m \<Longrightarrow> same_build (defaulted s d) (mod_defaulted m d)"

section \<open>Auxiliary notions\<close>

text \<open>A field of a shape is accepted on an input with value \<^verbatim>\<open>v\<close>: reading the field from the
  input returns, and the field's schema parses what was read to \<^verbatim>\<open>Ok(v)\<close>.\<close>

definition field_ok :: "jsval \<Rightarrow> string \<times> schema \<Rightarrow> jsval \<Rightarrow> bool" where
  "field_ok inp f v \<longleftrightarrow>
     (\<exists>field. getProp inp (fst f) = Return field \<and> parse (snd f) field = Return (Ok v))"

text \<open>A sequence of property assignments.\<close>

fun assigns :: "(string \<times> jsval) list \<Rightarrow> (string \<times> jsval) list \<Rightarrow> (string \<times> jsval) list" where
  "assigns obj [] = obj"
| "assigns obj ((k, v) # kvs) = assigns (assign obj k v) kvs"



text \<open>A schema written by a user of the library, not built by its constructors: it conforms
  to \<^verbatim>\<open>Schema<null>\<close> and parses every input to \<^verbatim>\<open>Ok(null)\<close>.\<close>

definition null_schema :: schema where
  "null_schema = Schema ''null'' (\<lambda>inp. Return (Ok Null)) None"

section \<open>Basic facts\<close>

lemma isNil_iff: "isNil v \<longleftrightarrow> v = Undefined \<or> v = Null"
  by (cases v) (simp_all add: isNil_def)

lemma isPlainObject_eq:
  "isPlainObject v =
     Return (case v of Object p props \<Rightarrow> p = NullPrototype \<or> p = ObjectPrototype | _ \<Rightarrow> False)"
  by (cases v) (simp_all add: isPlainObject_def isNil_iff)

section \<open>The loops of array and object\<close>

lemma array_loop_Err:
  "array_loop sch inp i arr = Return (Err e) \<Longrightarrow>
   \<exists>k e'. i \<le> k \<and> k < length inp \<and> parse sch (inp ! k) = Return (Err e') \<and>
          e = e'\<lparr>path := toString k # path e'\<rparr> \<and>
          (\<forall>j. i \<le> j \<and> j < k \<longrightarrow> (\<exists>v. parse sch (inp ! j) = Return (Ok v)))"
proof (induction sch inp i arr rule: array_loop.induct)
  case (1 sch inp i arr)
  from "1.prems" have lt: "i < length inp"
    by (subst (asm) array_loop.simps) (simp split: if_splits)
  show ?case
  proof (cases "parse sch (inp ! i)")
    case (Throw x)
    with "1.prems" lt show ?thesis
      by (subst (asm) array_loop.simps) simp
  next
    case (Return r)
    show ?thesis
    proof (cases r)
      case (Err e')
      with Return "1.prems" lt have "e = e'\<lparr>path := toString i # path e'\<rparr>"
        by (subst (asm) array_loop.simps) simp
      with Return Err lt show ?thesis
        by (intro exI[of _ i] exI[of _ e']) auto
    next
      case (Ok v)
      with Return "1.prems" lt have "array_loop sch inp (i + 1) (arr[i := v]) = Return (Err e)"
        by (subst (asm) array_loop.simps) simp
      from "1.IH"[OF lt Return Ok this] obtain k e' where
        k: "i + 1 \<le> k" "k < length inp" "parse sch (inp ! k) = Return (Err e')"
           "e = e'\<lparr>path := toString k # path e'\<rparr>"
           "\<forall>j. i + 1 \<le> j \<and> j < k \<longrightarrow> (\<exists>v. parse sch (inp ! j) = Return (Ok v))"
        by blast
      have "\<forall>j. i \<le> j \<and> j < k \<longrightarrow> (\<exists>v. parse sch (inp ! j) = Return (Ok v))"
      proof (intro allI impI)
        fix j assume j: "i \<le> j \<and> j < k"
        show "\<exists>v. parse sch (inp ! j) = Return (Ok v)"
        proof (cases "j = i")
          case True
          with Return Ok show ?thesis by simp
        next
          case False
          with j k(5) show ?thesis by simp
        qed
      qed
      with k show ?thesis
        by (intro exI[of _ k] exI[of _ e']) simp
    qed
  qed
qed

lemma array_loop_first_Err:
  "i \<le> k \<Longrightarrow> k < length inp \<Longrightarrow> parse sch (inp ! k) = Return (Err e') \<Longrightarrow>
   (\<forall>j. i \<le> j \<and> j < k \<longrightarrow> (\<exists>v. parse sch (inp ! j) = Return (Ok v))) \<Longrightarrow>
   array_loop sch inp i arr = Return (Err (e'\<lparr>path := toString k # path e'\<rparr>))"
proof (induction sch inp i arr rule: array_loop.induct)
  case (1 sch inp i arr)
  from "1.prems" have lt: "i < length inp" by simp
  show ?case
  proof (cases "i = k")
    case True
    with "1.prems" show ?thesis
      by (subst array_loop.simps) simp
  next
    case False
    with "1.prems" have ik: "i + 1 \<le> k" by simp
    from "1.prems" False obtain v where v: "parse sch (inp ! i) = Return (Ok v)"
      by (metis le_neq_implies_less order_refl)
    have "array_loop sch inp (i + 1) (arr[i := v]) =
          Return (Err (e'\<lparr>path := toString k # path e'\<rparr>))"
      using "1.IH"[OF lt v refl ik] "1.prems" by simp
    with v lt show ?thesis
      by (subst array_loop.simps) simp
  qed
qed

lemma array_loop_Ok:
  "array_loop sch inp i arr = Return (Ok w) \<Longrightarrow> length arr = length inp \<Longrightarrow>
   \<exists>ys. w = Array ys \<and> length ys = length inp \<and> (\<forall>j<i. ys ! j = arr ! j) \<and>
        (\<forall>j. i \<le> j \<and> j < length inp \<longrightarrow> parse sch (inp ! j) = Return (Ok (ys ! j)))"
proof (induction sch inp i arr rule: array_loop.induct)
  case (1 sch inp i arr)
  show ?case
  proof (cases "i < length inp")
    case False
    with "1.prems" have "w = Array arr"
      by (subst (asm) array_loop.simps) simp
    with False "1.prems" show ?thesis by auto
  next
    case lt: True
    from "1.prems"(1) lt obtain v where v: "parse sch (inp ! i) = Return (Ok v)"
      and rec: "array_loop sch inp (i + 1) (arr[i := v]) = Return (Ok w)"
      by (subst (asm) array_loop.simps) (simp split: outcome.splits result.splits)
    from "1.IH"[OF lt v refl rec] "1.prems"(2) obtain ys where
      ys: "w = Array ys" "length ys = length inp" "\<forall>j<i + 1. ys ! j = arr[i := v] ! j"
          "\<forall>j. i + 1 \<le> j \<and> j < length inp \<longrightarrow> parse sch (inp ! j) = Return (Ok (ys ! j))"
      by auto
    from ys(3) lt "1.prems"(2) have yi: "ys ! i = v" by simp
    from ys(3) have below: "\<forall>j<i. ys ! j = arr ! j" by simp
    have "\<forall>j. i \<le> j \<and> j < length inp \<longrightarrow> parse sch (inp ! j) = Return (Ok (ys ! j))"
    proof (intro allI impI)
      fix j assume j: "i \<le> j \<and> j < length inp"
      show "parse sch (inp ! j) = Return (Ok (ys ! j))"
      proof (cases "j = i")
        case True
        with v yi show ?thesis by simp
      next
        case False
        with j ys(4) show ?thesis by simp
      qed
    qed
    with ys below show ?thesis by simp
  qed
qed

lemma array_loop_all_Ok:
  "length arr = length inp \<Longrightarrow> length ys = length inp \<Longrightarrow>
   (\<forall>j<i. arr ! j = ys ! j) \<Longrightarrow>
   (\<forall>j. i \<le> j \<and> j < length inp \<longrightarrow> parse sch (inp ! j) = Return (Ok (ys ! j))) \<Longrightarrow>
   i \<le> length inp \<Longrightarrow>
   array_loop sch inp i arr = Return (Ok (Array ys))"
proof (induction sch inp i arr rule: array_loop.induct)
  case (1 sch inp i arr)
  show ?case
  proof (cases "i < length inp")
    case False
    with "1.prems" have "arr = ys"
      by (intro nth_equalityI) auto
    with False show ?thesis
      by (subst array_loop.simps) simp
  next
    case lt: True
    with "1.prems" have v: "parse sch (inp ! i) = Return (Ok (ys ! i))" by simp
    have agree: "\<forall>j<i + 1. arr[i := ys ! i] ! j = ys ! j"
      using "1.prems" lt by (simp add: nth_list_update less_Suc_eq)
    have "array_loop sch inp (i + 1) (arr[i := ys ! i]) = Return (Ok (Array ys))"
      using "1.IH"[OF lt v refl _ "1.prems"(2) agree] "1.prems" lt by simp
    with v lt show ?thesis
      by (subst array_loop.simps) simp
  qed
qed


lemma keys_assign: "fst ` set (assign obj k v) = insert k (fst ` set obj)"
  by (induction obj k v rule: assign.induct) auto

lemma distinct_assign: "distinct (map fst obj) \<Longrightarrow> distinct (map fst (assign obj k v))"
  by (induction obj k v rule: assign.induct) (auto simp: keys_assign)

lemma assign_fresh: "k \<notin> fst ` set obj \<Longrightarrow> assign obj k v = obj @ [(k, v)]"
  by (induction obj k v rule: assign.induct) auto

lemma assigns_fresh:
  "distinct (map fst kvs) \<Longrightarrow> fst ` set kvs \<inter> fst ` set obj = {} \<Longrightarrow> assigns obj kvs = obj @ kvs"
proof (induction obj kvs rule: assigns.induct)
  case (1 obj)
  then show ?case by simp
next
  case (2 obj k v kvs)
  from "2.prems" have fresh: "k \<notin> fst ` set obj" by auto
  then have a: "assign obj k v = obj @ [(k, v)]" by (rule assign_fresh)
  from "2.prems" have "fst ` set kvs \<inter> fst ` set (assign obj k v) = {}"
    by (auto simp: keys_assign)
  with "2.IH" "2.prems" have "assigns (assign obj k v) kvs = assign obj k v @ kvs" by simp
  with a show ?case by simp
qed

lemma keys_assigns: "fst ` set (assigns obj kvs) = fst ` set obj \<union> fst ` set kvs"
  by (induction obj kvs rule: assigns.induct) (auto simp: keys_assign)

lemma distinct_assigns: "distinct (map fst obj) \<Longrightarrow> distinct (map fst (assigns obj kvs))"
  by (induction obj kvs rule: assigns.induct) (auto simp: distinct_assign)

lemma lookup_zip:
  "distinct ks \<Longrightarrow> length ks = length vs \<Longrightarrow> i < length ks \<Longrightarrow> lookup (zip ks vs) (ks ! i) = vs ! i"
proof (induction ks arbitrary: vs i)
  case Nil
  then show ?case by simp
next
  case (Cons k ks)
  then obtain v vs' where vs: "vs = v # vs'" by (cases vs) auto
  show ?case
  proof (cases i)
    case 0
    with vs show ?thesis by simp
  next
    case (Suc n)
    with Cons.prems vs have "ks ! n \<noteq> k" by auto
    with Cons.IH[of vs' n] Cons.prems vs Suc show ?thesis by auto
  qed
qed

lemma object_loop_Ok_iff:
  "object_loop shp inp obj = Return (Ok w) \<longleftrightarrow>
   (\<exists>vs. list_all2 (field_ok inp) shp vs \<and>
         w = Object NullPrototype (assigns obj (zip (map fst shp) vs)))"
proof (induction shp arbitrary: obj)
  case Nil
  then show ?case by auto
next
  case (Cons f rest)
  obtain k sch where f: "f = (k, sch)" by (cases f)
  show ?case
  proof (cases "getProp inp k")
    case (Throw x)
    with f show ?thesis by (auto simp: list_all2_Cons1 field_ok_def)
  next
    case gp: (Return field)
    show ?thesis
    proof (cases "parse sch field")
      case (Throw x)
      with f gp show ?thesis by (auto simp: list_all2_Cons1 field_ok_def)
    next
      case (Return r)
      show ?thesis
      proof (cases r)
        case (Err e)
        with f gp Return show ?thesis by (auto simp: list_all2_Cons1 field_ok_def)
      next
        case (Ok v)
        have "object_loop (f # rest) inp obj = object_loop rest inp (assign obj k v)"
          using f gp Return Ok by simp
        also have "\<dots> = Return (Ok w) \<longleftrightarrow>
           (\<exists>vs. list_all2 (field_ok inp) rest vs \<and>
                 w = Object NullPrototype (assigns (assign obj k v) (zip (map fst rest) vs)))"
          by (rule Cons.IH)
        also have "\<dots> \<longleftrightarrow>
           (\<exists>vs. list_all2 (field_ok inp) (f # rest) vs \<and>
                 w = Object NullPrototype (assigns obj (zip (map fst (f # rest)) vs)))"
          using f gp Return Ok by (auto simp: list_all2_Cons1 field_ok_def)
        finally show ?thesis .
      qed
    qed
  qed
qed

lemma object_loop_Err:
  "object_loop shp inp obj = Return (Err e) \<Longrightarrow>
   \<exists>pre k sch post field e'.
      shp = pre @ (k, sch) # post \<and> getProp inp k = Return field \<and>
      parse sch field = Return (Err e') \<and> e = e'\<lparr>path := k # path e'\<rparr> \<and>
      (\<forall>f \<in> set pre. \<exists>v. field_ok inp f v)"
proof (induction shp arbitrary: obj)
  case Nil
  then show ?case by simp
next
  case (Cons f rest)
  obtain k sch where f: "f = (k, sch)" by (cases f)
  from Cons.prems f obtain field where gp: "getProp inp k = Return field"
    by (cases "getProp inp k") auto
  from Cons.prems f gp obtain r where r: "parse sch field = Return r"
    by (cases "parse sch field") auto
  show ?case
  proof (cases r)
    case (Err e')
    with Cons.prems f gp r have "e = e'\<lparr>path := k # path e'\<rparr>" by simp
    with f gp r Err show ?thesis
      by (intro exI[of _ "[]"] exI[of _ k] exI[of _ sch] exI[of _ rest] exI[of _ field] exI[of _ e'])
        simp
  next
    case (Ok v)
    with Cons.prems f gp r have "object_loop rest inp (assign obj k v) = Return (Err e)" by simp
    from Cons.IH[OF this] obtain pre k' sch' post field' e' where
      h: "rest = pre @ (k', sch') # post" "getProp inp k' = Return field'"
         "parse sch' field' = Return (Err e')" "e = e'\<lparr>path := k' # path e'\<rparr>"
         "\<forall>f \<in> set pre. \<exists>v. field_ok inp f v"
      by blast
    have "field_ok inp f v" using f gp r Ok by (auto simp: field_ok_def)
    with h show ?thesis
      by (intro exI[of _ "f # pre"] exI[of _ k'] exI[of _ sch'] exI[of _ post] exI[of _ field']
          exI[of _ e']) auto
  qed
qed

lemma object_loop_first_Err:
  "(\<forall>f \<in> set pre. \<exists>v. field_ok inp f v) \<Longrightarrow> getProp inp k = Return field \<Longrightarrow>
   parse sch field = Return (Err e') \<Longrightarrow>
   object_loop (pre @ (k, sch) # post) inp obj = Return (Err (e'\<lparr>path := k # path e'\<rparr>))"
proof (induction pre arbitrary: obj)
  case Nil
  then show ?case by simp
next
  case (Cons f pre)
  obtain k' sch' where f: "f = (k', sch')" by (cases f)
  from Cons.prems(1) f obtain field' v where
    "getProp inp k' = Return field'" "parse sch' field' = Return (Ok v)"
    by (auto simp: field_ok_def)
  with f Cons show ?case by simp
qed

lemma lookup_missing: "k \<notin> fst ` set props \<Longrightarrow> lookup props k = Undefined"
  by (induction props k rule: lookup.induct) auto

lemma parse_array_Array:
  "parse (array sch) (Array xs) = array_loop sch xs 0 (replicate (length xs) Undefined)"
  by (simp add: array_def)

lemma parse_array_not_Array:
  "\<not> isArray v \<Longrightarrow> parse (array sch) v = Return (createErr ''Expecting array'' v)"
  by (cases v) (simp_all add: array_def)

lemma parse_object_plain:
  "isPlainObject v = Return True \<Longrightarrow> parse (object shp) v = object_loop shp v []"
  by (simp add: object_def)

lemma parse_object_not_plain:
  "isPlainObject v = Return False \<Longrightarrow> parse (object shp) v = Return (createErr ''Expecting object'' v)"
  by (simp add: object_def)

lemma isPlainObject_cases: "isPlainObject v = Return True \<or> isPlainObject v = Return False"
  by (simp add: isPlainObject_eq)

section \<open>Paths and field order\<close>

text \<open>
  C1. Whenever \<^verbatim>\<open>array(s).parse\<close> returns an error, either the input is not an array and the
  error is the array's own, with the empty path, or the error is the one \<^verbatim>\<open>s.parse\<close> returned
  for the first failing element, with exactly one segment put in front of its path: the
  index of that element in decimal; message and offending input are the child's. Likewise
  for \<^verbatim>\<open>object(shape).parse\<close>, with the name of the failing field as the segment. For
  \<^verbatim>\<open>object({items: array(object({n: number()}))})\<close> on \<^verbatim>\<open>{items: [{n: 1}, {n: "x"}]}\<close> the result is
  the error of \<^verbatim>\<open>number\<close> on \<^verbatim>\<open>"x"\<close> with the path \<^verbatim>\<open>["items", "1", "n"]\<close>.
\<close>

theorem path_segment_per_level:
  "(parse (array sch) v = Return (Err e) \<longrightarrow>
      (\<not> isArray v \<and> e = \<lparr>path = [], message = ''Expecting array'', input = v\<rparr>) \<or>
      (\<exists>xs i e'. v = Array xs \<and> i < length xs \<and> parse sch (xs ! i) = Return (Err e') \<and>
                  (\<forall>j<i. \<exists>w. parse sch (xs ! j) = Return (Ok w)) \<and>
                  e = e'\<lparr>path := toString i # path e'\<rparr>)) \<and>
   (parse (object shp) v = Return (Err e) \<longrightarrow>
      (isPlainObject v = Return False \<and>
       e = \<lparr>path = [], message = ''Expecting object'', input = v\<rparr>) \<or>
      (\<exists>k sch' field e'. (k, sch') \<in> set shp \<and> getProp v k = Return field \<and>
                  parse sch' field = Return (Err e') \<and> e = e'\<lparr>path := k # path e'\<rparr>)) \<and>
   parse (object [(''items'', array (object [(''n'', number)]))])
     (Object ObjectPrototype
        [(''items'', Array [Object ObjectPrototype [(''n'', Number (Finite 1))],
                            Object ObjectPrototype [(''n'', String ''x'')]])]) =
     Return (Err \<lparr>path = [''items'', ''1'', ''n''], message = ''Expecting number'',
                  input = String ''x''\<rparr>)"
proof (intro conjI impI)
  assume a: "parse (array sch) v = Return (Err e)"
  show "(\<not> isArray v \<and> e = \<lparr>path = [], message = ''Expecting array'', input = v\<rparr>) \<or>
      (\<exists>xs i e'. v = Array xs \<and> i < length xs \<and> parse sch (xs ! i) = Return (Err e') \<and>
                  (\<forall>j<i. \<exists>w. parse sch (xs ! j) = Return (Ok w)) \<and>
                  e = e'\<lparr>path := toString i # path e'\<rparr>)"
  proof (cases "isArray v")
    case False
    with a show ?thesis by (simp add: parse_array_not_Array createErr_def)
  next
    case True
    then obtain xs where v: "v = Array xs" by (cases v) auto
    with a have "array_loop sch xs 0 (replicate (length xs) Undefined) = Return (Err e)"
      by (simp add: parse_array_Array)
    from array_loop_Err[OF this] v show ?thesis by auto
  qed
next
  assume a: "parse (object shp) v = Return (Err e)"
  show "(isPlainObject v = Return False \<and>
       e = \<lparr>path = [], message = ''Expecting object'', input = v\<rparr>) \<or>
      (\<exists>k sch' field e'. (k, sch') \<in> set shp \<and> getProp v k = Return field \<and>
                  parse sch' field = Return (Err e') \<and> e = e'\<lparr>path := k # path e'\<rparr>)"
  proof (cases "isPlainObject v = Return True")
    case False
    then have np: "isPlainObject v = Return False" using isPlainObject_cases[of v] by simp
    with a show ?thesis by (simp add: parse_object_not_plain createErr_def)
  next
    case True
    with a have "object_loop shp v [] = Return (Err e)" by (simp add: parse_object_plain)
    from object_loop_Err[OF this] obtain pre k sch' post field e' where
      "shp = pre @ (k, sch') # post" "getProp v k = Return field"
      "parse sch' field = Return (Err e')" "e = e'\<lparr>path := k # path e'\<rparr>"
      by blast
    then show ?thesis by auto
  qed
next
  show "parse (object [(''items'', array (object [(''n'', number)]))])
     (Object ObjectPrototype
        [(''items'', Array [Object ObjectPrototype [(''n'', Number (Finite 1))],
                            Object ObjectPrototype [(''n'', String ''x'')]])]) =
     Return (Err \<lparr>path = [''items'', ''1'', ''n''], message = ''Expecting number'',
                  input = String ''x''\<rparr>)"
    by (simp add: object_def array_def number_def isPlainObject_def isNil_def createErr_def
        array_loop.simps toString.simps digit_def)
qed

theorem path_segment_per_level_witness:
  "parse (array number) (Array [Number (Finite 1), String ''x'', Number (Finite 3)]) =
     Return (Err \<lparr>path = [''1''], message = ''Expecting number'', input = String ''x''\<rparr>) \<and>
   (\<exists>xs i e'. Array [Number (Finite 1), String ''x'', Number (Finite 3)] = Array xs \<and>
       i < length xs \<and> parse number (xs ! i) = Return (Err e') \<and>
       (\<forall>j<i. \<exists>w. parse number (xs ! j) = Return (Ok w)) \<and>
       \<lparr>path = [''1''], message = ''Expecting number'', input = String ''x''\<rparr> =
         e'\<lparr>path := toString i # path e'\<rparr>) \<and>
   parse (object [(''n'', number)]) (Object ObjectPrototype [(''n'', String ''x'')]) =
     Return (Err \<lparr>path = [''n''], message = ''Expecting number'', input = String ''x''\<rparr>) \<and>
   (\<exists>k sch' field e'. (k, sch') \<in> set [(''n'', number)] \<and>
       getProp (Object ObjectPrototype [(''n'', String ''x'')]) k = Return field \<and>
       parse sch' field = Return (Err e') \<and>
       \<lparr>path = [''n''], message = ''Expecting number'', input = String ''x''\<rparr> =
         e'\<lparr>path := k # path e'\<rparr>)"
proof -
  let ?xs = "[Number (Finite 1), String ''x'', Number (Finite 3)]"
  let ?e = "\<lparr>path = [''1''], message = ''Expecting number'', input = String ''x''\<rparr>"
  let ?o = "Object ObjectPrototype [(''n'', String ''x'')]"
  let ?d = "\<lparr>path = [''n''], message = ''Expecting number'', input = String ''x''\<rparr>"
  have h1: "parse (array number) (Array ?xs) = Return (Err ?e)"
    by (simp add: array_def number_def createErr_def array_loop.simps toString.simps digit_def)
  have h2: "parse (object [(''n'', number)]) ?o = Return (Err ?d)"
    by (simp add: object_def number_def isPlainObject_def isNil_def createErr_def)
  have a: "isArray (Array ?xs)" by simp
  have b: "isPlainObject ?o \<noteq> Return False" by (simp add: isPlainObject_def isNil_def)
  from path_segment_per_level [of number "Array ?xs" ?e, THEN conjunct1, rule_format, OF h1] a
  have c1: "\<exists>xs i e'. Array ?xs = Array xs \<and>
       i < length xs \<and> parse number (xs ! i) = Return (Err e') \<and>
       (\<forall>j<i. \<exists>w. parse number (xs ! j) = Return (Ok w)) \<and>
       ?e = e'\<lparr>path := toString i # path e'\<rparr>"
    by blast
  from path_segment_per_level [of _ ?o ?d "[(''n'', number)]", THEN conjunct2, THEN conjunct1,
      rule_format, OF h2] b
  have c2: "\<exists>k sch' field e'. (k, sch') \<in> set [(''n'', number)] \<and>
       getProp ?o k = Return field \<and> parse sch' field = Return (Err e') \<and>
       ?d = e'\<lparr>path := k # path e'\<rparr>"
    by blast
  from h1 c1 h2 c2 show ?thesis by blast
qed

lemma set_for_in: "set (for_in decl) = set decl"
  by (auto simp: for_in_def)

lemma for_in_without_index: "\<forall>f \<in> set decl. \<not> is_array_index (fst f) \<Longrightarrow> for_in decl = decl"
  by (simp add: for_in_def)

lemma for_in_others_as_written:
  "filter (\<lambda>f. \<not> is_array_index (fst f)) (for_in decl) =
   filter (\<lambda>f. \<not> is_array_index (fst f)) decl"
proof -
  have "filter (\<lambda>f. \<not> is_array_index (fst f))
          (sort_key (\<lambda>f. numeral_value (fst f)) (filter (\<lambda>f. is_array_index (fst f)) decl)) = []"
    by (simp add: filter_empty_conv)
  then show ?thesis by (simp add: for_in_def)
qed

lemma for_in_indices_first:
  "filter (\<lambda>f. is_array_index (fst f)) (for_in decl) =
   sort_key (\<lambda>f. numeral_value (fst f)) (filter (\<lambda>f. is_array_index (fst f)) decl)"
proof -
  have "filter (\<lambda>f. is_array_index (fst f))
          (sort_key (\<lambda>f. numeral_value (fst f)) (filter (\<lambda>f. is_array_index (fst f)) decl)) =
        sort_key (\<lambda>f. numeral_value (fst f)) (filter (\<lambda>f. is_array_index (fst f)) decl)"
    by (simp add: filter_id_conv)
  then show ?thesis by (simp add: for_in_def)
qed

lemma proto_is_member: "''__proto__'' \<in> fst ` set Object_prototype_members"
  by (simp add: Object_prototype_members_def)

lemma getProp_missing:
  "k \<notin> fst ` set props \<Longrightarrow>
   p = NullPrototype \<or> p = ObjectPrototype \<and> k \<notin> fst ` set Object_prototype_members \<Longrightarrow>
   getProp (Object p props) k = Return Undefined"
proof -
  assume a: "k \<notin> fst ` set props"
    and b: "p = NullPrototype \<or> p = ObjectPrototype \<and> k \<notin> fst ` set Object_prototype_members"
  have "inherited p k = Undefined"
  proof (cases "p = NullPrototype")
    case True
    then show ?thesis by simp
  next
    case False
    with b have p: "p = ObjectPrototype" and nk: "k \<notin> fst ` set Object_prototype_members"
      by auto
    with proto_is_member have "k \<noteq> ''__proto__''" by blast
    with p nk show ?thesis by (simp add: lookup_missing)
  qed
  with a show ?thesis by simp
qed

text \<open>
  C2 (amended). \<^verbatim>\<open>object(shape).parse\<close> visits the fields of the shape in the order of
  \<^verbatim>\<open>for (const key in shape)\<close>: the fields named by an array index come first, in ascending
  numeric order, and the other fields follow in the order in which the shape declares them;
  it is the declared order when no field is named by an array index. On a plain object, if
  every field visited before the field \<^verbatim>\<open>k\<close> is accepted and the schema of \<^verbatim>\<open>k\<close> rejects what the
  input reads under \<^verbatim>\<open>k\<close>, the result is that error with \<^verbatim>\<open>k\<close> put in front of its path,
  whatever fields come after \<^verbatim>\<open>k\<close> and whether the input satisfies them or not. A key that the
  input neither has nor inherits from \<^verbatim>\<open>Object.prototype\<close> is read as \<^verbatim>\<open>undefined\<close>. For
  \<^verbatim>\<open>object({a: number(), b: string()})\<close> on \<^verbatim>\<open>{a: "bad", b: 1}\<close> the path of the error is \<^verbatim>\<open>["a"]\<close>.
\<close>

theorem object_fails_at_first_enumerated_field:
  "(isPlainObject v = Return True \<and> for_in decl = pre @ (k, sch) # post \<and>
    (\<forall>f \<in> set pre. \<exists>field w. getProp v (fst f) = Return field \<and>
                              parse (snd f) field = Return (Ok w)) \<and>
    getProp v k = Return field \<and> parse sch field = Return (Err e) \<longrightarrow>
    parse (object (for_in decl)) v = Return (Err (e\<lparr>path := k # path e\<rparr>))) \<and>
   filter (\<lambda>f. is_array_index (fst f)) (for_in decl) =
     sort_key (\<lambda>f. numeral_value (fst f)) (filter (\<lambda>f. is_array_index (fst f)) decl) \<and>
   filter (\<lambda>f. \<not> is_array_index (fst f)) (for_in decl) =
     filter (\<lambda>f. \<not> is_array_index (fst f)) decl \<and>
   ((\<forall>f \<in> set decl. \<not> is_array_index (fst f)) \<longrightarrow> for_in decl = decl) \<and>
   (k \<notin> fst ` set props \<and>
    (p = NullPrototype \<or> p = ObjectPrototype \<and> k \<notin> fst ` set Object_prototype_members) \<longrightarrow>
    getProp (Object p props) k = Return Undefined) \<and>
   parse (object (for_in [(''a'', number), (''b'', string)]))
     (Object ObjectPrototype [(''a'', String ''bad''), (''b'', Number (Finite 1))]) =
     Return (Err \<lparr>path = [''a''], message = ''Expecting number'', input = String ''bad''\<rparr>)"
proof (intro conjI impI)
  assume a: "isPlainObject v = Return True \<and> for_in decl = pre @ (k, sch) # post \<and>
    (\<forall>f \<in> set pre. \<exists>field w. getProp v (fst f) = Return field \<and>
                              parse (snd f) field = Return (Ok w)) \<and>
    getProp v k = Return field \<and> parse sch field = Return (Err e)"
  then have "\<forall>f \<in> set pre. \<exists>w. field_ok v f w"
    by (simp add: field_ok_def) blast
  from object_loop_first_Err[OF this, of k field sch e post "[]"] a
  show "parse (object (for_in decl)) v = Return (Err (e\<lparr>path := k # path e\<rparr>))"
    by (simp add: parse_object_plain)
next
  show "filter (\<lambda>f. is_array_index (fst f)) (for_in decl) =
     sort_key (\<lambda>f. numeral_value (fst f)) (filter (\<lambda>f. is_array_index (fst f)) decl)"
    by (rule for_in_indices_first)
next
  show "filter (\<lambda>f. \<not> is_array_index (fst f)) (for_in decl) =
     filter (\<lambda>f. \<not> is_array_index (fst f)) decl"
    by (rule for_in_others_as_written)
next
  assume "\<forall>f \<in> set decl. \<not> is_array_index (fst f)"
  then show "for_in decl = decl" by (rule for_in_without_index)
next
  assume "k \<notin> fst ` set props \<and>
    (p = NullPrototype \<or> p = ObjectPrototype \<and> k \<notin> fst ` set Object_prototype_members)"
  then show "getProp (Object p props) k = Return Undefined"
    using getProp_missing[of k props p] by blast
next
  have "for_in [(''a'', number), (''b'', string)] = [(''a'', number), (''b'', string)]"
    by (rule for_in_without_index) (simp add: is_array_index_def is_digit_def)
  then show "parse (object (for_in [(''a'', number), (''b'', string)]))
     (Object ObjectPrototype [(''a'', String ''bad''), (''b'', Number (Finite 1))]) =
     Return (Err \<lparr>path = [''a''], message = ''Expecting number'', input = String ''bad''\<rparr>)"
    by (simp add: object_def number_def isPlainObject_def isNil_def createErr_def)
qed

theorem object_fails_at_first_enumerated_field_witness:
  "for_in [(''b'', string), (''10'', boolean), (''a'', number), (''9'', number)] =
     [(''9'', number), (''10'', boolean), (''b'', string), (''a'', number)] \<and>
   parse (object (for_in [(''b'', string), (''10'', boolean), (''a'', number), (''9'', number)]))
     (Object ObjectPrototype [(''a'', Number (Finite 1)), (''9'', Number (Finite 0))]) =
     Return (Err \<lparr>path = [''10''], message = ''Expecting boolean'', input = Undefined\<rparr>) \<and>
   for_in [(''a'', number), (''b'', string)] = [(''a'', number), (''b'', string)] \<and>
   getProp (Object ObjectPrototype [(''a'', Number (Finite 1)), (''9'', Number (Finite 0))]) ''10'' =
     Return Undefined"
proof -
  let ?decl = "[(''b'', string), (''10'', boolean), (''a'', number), (''9'', number)]"
  let ?props = "[(''a'', Number (Finite 1)), (''9'', Number (Finite 0))]"
  let ?v = "Object ObjectPrototype ?props"
  let ?e = "\<lparr>path = [], message = ''Expecting boolean'', input = Undefined\<rparr>"
  have ix: "is_array_index ''9''" "is_array_index ''10''" "\<not> is_array_index ''a''"
    "\<not> is_array_index ''b''"
    by (simp_all add: is_array_index_def is_digit_def numeral_value_def digit_value_def)
  have nv: "numeral_value ''9'' = 9" "numeral_value ''10'' = 10"
    by (simp_all add: numeral_value_def digit_value_def)
  have fi: "for_in ?decl = [(''9'', number)] @ (''10'', boolean) # [(''b'', string), (''a'', number)]"
    by (simp add: for_in_def ix nv)
  have h: "isPlainObject ?v = Return True \<and>
    for_in ?decl = [(''9'', number)] @ (''10'', boolean) # [(''b'', string), (''a'', number)] \<and>
    (\<forall>f \<in> set [(''9'', number)]. \<exists>field w. getProp ?v (fst f) = Return field \<and>
                              parse (snd f) field = Return (Ok w)) \<and>
    getProp ?v ''10'' = Return Undefined \<and> parse boolean Undefined = Return (Err ?e)"
    using fi
    by (simp add: isPlainObject_def isNil_def number_def boolean_def createErr_def
        Object_prototype_members_def)
  have n: "\<forall>f \<in> set [(''a'', number), (''b'', string)]. \<not> is_array_index (fst f)"
    using ix by simp
  have m: "''10'' \<notin> fst ` set ?props \<and>
    (ObjectPrototype = NullPrototype \<or>
     ObjectPrototype = ObjectPrototype \<and> ''10'' \<notin> fst ` set Object_prototype_members)"
    by (simp add: Object_prototype_members_def)
  have c1: "parse (object (for_in ?decl)) ?v = Return (Err (?e\<lparr>path := ''10'' # path ?e\<rparr>))"
    by (rule object_fails_at_first_enumerated_field
        [of ?v ?decl "[(''9'', number)]" "''10''" boolean "[(''b'', string), (''a'', number)]"
          Undefined ?e, THEN conjunct1, rule_format, OF h])
  have c2: "for_in [(''a'', number), (''b'', string)] = [(''a'', number), (''b'', string)]"
    by (rule object_fails_at_first_enumerated_field
        [of _ "[(''a'', number), (''b'', string)]", THEN conjunct2, THEN conjunct2,
          THEN conjunct2, THEN conjunct1, THEN mp, OF n])
  have c3: "getProp ?v ''10'' = Return Undefined"
    by (rule object_fails_at_first_enumerated_field
        [of _ _ _ "''10''" _ _ _ _ ?props ObjectPrototype, THEN conjunct2, THEN conjunct2,
          THEN conjunct2, THEN conjunct2, THEN conjunct1, rule_format, OF m])
  from fi c1 c2 c3 show ?thesis by simp
qed

text \<open>
  The claim as written fails in both respects. The shape \<^verbatim>\<open>{b: string(), 1: number()}\<close>
  declares \<^verbatim>\<open>b\<close> first, and on \<^verbatim>\<open>{b: 1, 1: "x"}\<close>, where both fields are invalid, the error is
  that of the field \<^verbatim>\<open>1\<close>. The input \<^verbatim>\<open>{}\<close> has no key \<^verbatim>\<open>toString\<close>, and the schema of the field
  \<^verbatim>\<open>toString\<close> does not receive \<^verbatim>\<open>undefined\<close>, on which \<^verbatim>\<open>optional(string())\<close> succeeds, but the
  method that \<^verbatim>\<open>{}\<close> inherits.
\<close>

theorem object_declared_order_counterexample:
  "parse (object (for_in [(''b'', string), (''1'', number)]))
     (Object ObjectPrototype [(''b'', Number (Finite 1)), (''1'', String ''x'')]) =
     Return (Err \<lparr>path = [''1''], message = ''Expecting number'', input = String ''x''\<rparr>) \<and>
   parse string (Number (Finite 1)) =
     Return (Err \<lparr>path = [], message = ''Expecting string'', input = Number (Finite 1)\<rparr>) \<and>
   ''toString'' \<notin> fst ` set ([] :: (string \<times> jsval) list) \<and>
   parse (optional string) Undefined = Return (Ok NoneV) \<and>
   parse (object (for_in [(''toString'', optional string)])) (Object ObjectPrototype []) =
     Return (Err \<lparr>path = [''toString''], message = ''Expecting string'',
                  input = Function ''toString''\<rparr>)"
proof -
  have ix: "is_array_index ''1''" "\<not> is_array_index ''b''" "\<not> is_array_index ''toString''"
    by (simp_all add: is_array_index_def is_digit_def numeral_value_def digit_value_def)
  have f1: "for_in [(''b'', string), (''1'', number)] = [(''1'', number), (''b'', string)]"
    by (simp add: for_in_def ix)
  have f2: "for_in [(''toString'', optional string)] = [(''toString'', optional string)]"
    by (simp add: for_in_def ix)
  show ?thesis
    unfolding f1 f2
    by (simp add: object_def optional_def string_def number_def isPlainObject_def isNil_def
        createErr_def map_result_def Object_prototype_members_def)
qed

section \<open>The output of object\<close>

text \<open>
  C8. When \<^verbatim>\<open>object(shape).parse\<close> succeeds, its value is a new object without prototype
  whose keys are exactly the field names of the shape, each once (and in the order of the
  shape): a key of the input that the shape does not declare is not in the output. For
  \<^verbatim>\<open>object({a: number()})\<close> on \<^verbatim>\<open>{a: 1, z: 99}\<close> the result is \<^verbatim>\<open>Ok({a: 1})\<close>.
\<close>

theorem object_output_has_exactly_shape_fields:
  "parse (object shp) v = Return (Ok w) \<longrightarrow>
     (\<exists>obj. w = Object NullPrototype obj \<and> fst ` set obj = fst ` set shp \<and>
            distinct (map fst obj) \<and>
            (distinct (map fst shp) \<longrightarrow> map fst obj = map fst shp))"
proof
  assume a: "parse (object shp) v = Return (Ok w)"
  have "isPlainObject v = Return True"
  proof (rule ccontr)
    assume "isPlainObject v \<noteq> Return True"
    with isPlainObject_cases[of v] have "isPlainObject v = Return False" by simp
    with a show False by (simp add: parse_object_not_plain createErr_def)
  qed
  with a have "object_loop shp v [] = Return (Ok w)" by (simp add: parse_object_plain)
  then obtain vs where vs: "list_all2 (field_ok v) shp vs"
    and w: "w = Object NullPrototype (assigns [] (zip (map fst shp) vs))"
    by (auto simp: object_loop_Ok_iff)
  let ?obj = "assigns [] (zip (map fst shp) vs)"
  from vs have len: "length vs = length shp" by (simp add: list_all2_lengthD)
  then have mf: "map fst (zip (map fst shp) vs) = map fst shp" by simp
  have keys: "fst ` set ?obj = fst ` set shp"
    using mf by (simp add: keys_assigns) (metis list.set_map)
  have dist: "distinct (map fst ?obj)" by (rule distinct_assigns) simp
  have "distinct (map fst shp) \<longrightarrow> map fst ?obj = map fst shp"
  proof
    assume "distinct (map fst shp)"
    with mf have "assigns [] (zip (map fst shp) vs) = [] @ zip (map fst shp) vs"
      by (intro assigns_fresh) simp_all
    with mf show "map fst ?obj = map fst shp" by simp
  qed
  with w keys dist show "\<exists>obj. w = Object NullPrototype obj \<and> fst ` set obj = fst ` set shp \<and>
            distinct (map fst obj) \<and>
            (distinct (map fst shp) \<longrightarrow> map fst obj = map fst shp)"
    by blast
qed

theorem object_output_has_exactly_shape_fields_witness:
  "parse (object [(''a'', number)])
     (Object ObjectPrototype [(''a'', Number (Finite 1)), (''z'', Number (Finite 99))]) =
     Return (Ok (Object NullPrototype [(''a'', Number (Finite 1))])) \<and>
   (\<exists>obj. Object NullPrototype [(''a'', Number (Finite 1))] = Object NullPrototype obj \<and>
          fst ` set obj = fst ` set [(''a'', number)] \<and> distinct (map fst obj) \<and>
          (distinct (map fst [(''a'', number)]) \<longrightarrow> map fst obj = map fst [(''a'', number)]))"
proof -
  have h: "parse (object [(''a'', number)])
     (Object ObjectPrototype [(''a'', Number (Finite 1)), (''z'', Number (Finite 99))]) =
     Return (Ok (Object NullPrototype [(''a'', Number (Finite 1))]))"
    by (simp add: object_def number_def isPlainObject_def isNil_def)
  from h object_output_has_exactly_shape_fields [rule_format, OF h] show ?thesis by blast
qed

section \<open>Validating an output again\<close>

lemma plain_schema_stable:
  "plain_schema sch \<Longrightarrow> (\<forall>v w. parse sch v = Return (Ok w) \<longrightarrow> parse sch w = Return (Ok w))"
proof (induction rule: plain_schema.induct)
  case plain_string
  then show ?case by (auto simp: string_def createErr_def split: if_splits)
next
  case plain_number
  then show ?case by (auto simp: number_def createErr_def split: if_splits)
next
  case plain_boolean
  then show ?case by (auto simp: boolean_def createErr_def split: if_splits)
next
  case (plain_array sch)
  show ?case
  proof (intro allI impI)
    fix v w assume a: "parse (array sch) v = Return (Ok w)"
    have "isArray v"
    proof (rule ccontr)
      assume "\<not> isArray v"
      with a show False by (simp add: parse_array_not_Array createErr_def)
    qed
    then obtain xs where v: "v = Array xs" by (cases v) auto
    with a have "array_loop sch xs 0 (replicate (length xs) Undefined) = Return (Ok w)"
      by (simp add: parse_array_Array)
    from array_loop_Ok[OF this] obtain ys where
      ys: "w = Array ys" "length ys = length xs"
          "\<forall>j. 0 \<le> j \<and> j < length xs \<longrightarrow> parse sch (xs ! j) = Return (Ok (ys ! j))"
      by auto
    with plain_array.IH
    have again: "\<forall>j. 0 \<le> j \<and> j < length ys \<longrightarrow> parse sch (ys ! j) = Return (Ok (ys ! j))"
      by (metis le0)
    have "array_loop sch ys 0 (replicate (length ys) Undefined) = Return (Ok (Array ys))"
      by (rule array_loop_all_Ok) (use again in simp_all)
    with ys show "parse (array sch) w = Return (Ok w)" by (simp add: parse_array_Array)
  qed
next
  case (plain_object shp)
  show ?case
  proof (intro allI impI)
    fix v w assume a: "parse (object shp) v = Return (Ok w)"
    have "isPlainObject v = Return True"
    proof (rule ccontr)
      assume "isPlainObject v \<noteq> Return True"
      with isPlainObject_cases[of v] have "isPlainObject v = Return False" by simp
      with a show False by (simp add: parse_object_not_plain createErr_def)
    qed
    with a have "object_loop shp v [] = Return (Ok w)" by (simp add: parse_object_plain)
    then obtain vs where vs: "list_all2 (field_ok v) shp vs"
      and w: "w = Object NullPrototype (assigns [] (zip (map fst shp) vs))"
      by (auto simp: object_loop_Ok_iff)
    from vs have len: "length vs = length shp" by (simp add: list_all2_lengthD)
    from plain_object.hyps have dist: "distinct (map fst shp)" by simp
    have obj: "assigns [] (zip (map fst shp) vs) = zip (map fst shp) vs"
      using assigns_fresh[of "zip (map fst shp) vs" "[]"] dist len by simp
    with w have w': "w = Object NullPrototype (zip (map fst shp) vs)" by simp
    have "list_all2 (field_ok w) shp vs"
    proof (rule list_all2_all_nthI)
      show "length shp = length vs" using len by simp
    next
      fix i assume i: "i < length shp"
      from vs i have "field_ok v (shp ! i) (vs ! i)" by (simp add: list_all2_nthD)
      then obtain field where f: "parse (snd (shp ! i)) field = Return (Ok (vs ! i))"
        by (auto simp: field_ok_def)
      from i have "shp ! i \<in> set shp" by simp
      with plain_object.IH f have st: "parse (snd (shp ! i)) (vs ! i) = Return (Ok (vs ! i))"
        by blast
      have "lookup (zip (map fst shp) vs) (map fst shp ! i) = vs ! i"
        using dist len i by (intro lookup_zip) simp_all
      moreover have "map fst (zip (map fst shp) vs) = map fst shp" using len by simp
      then have "fst ` set (zip (map fst shp) vs) = fst ` set shp"
        by (metis list.set_map)
      with i have "fst (shp ! i) \<in> fst ` set (zip (map fst shp) vs)" by simp
      ultimately have "getProp w (fst (shp ! i)) = Return (vs ! i)" using i by (simp add: w')
      with st show "field_ok w (shp ! i) (vs ! i)" by (simp add: field_ok_def)
    qed
    then have "object_loop shp w [] = Return (Ok w)"
      using w by (simp add: object_loop_Ok_iff) blast
    moreover have "isPlainObject w = Return True" by (simp add: w' isPlainObject_eq)
    ultimately show "parse (object shp) w = Return (Ok w)" by (simp add: parse_object_plain)
  qed
qed

text \<open>
  C10. For a schema built from \<^verbatim>\<open>string\<close>, \<^verbatim>\<open>number\<close>, \<^verbatim>\<open>boolean\<close>, \<^verbatim>\<open>array\<close> and \<^verbatim>\<open>object\<close>
  alone, a value that \<^verbatim>\<open>parse\<close> returned in an \<^verbatim>\<open>Ok\<close> is parsed to \<^verbatim>\<open>Ok\<close> of itself. The
  object that \<^verbatim>\<open>object\<close> returns, built without prototype, passes \<^verbatim>\<open>isPlainObject\<close>.
\<close>

theorem validation_of_output_is_stable:
  "(plain_schema sch \<and> parse sch v = Return (Ok w) \<longrightarrow> parse sch w = Return (Ok w)) \<and>
   (parse (object shp) v = Return (Ok w) \<longrightarrow> isPlainObject w = Return True)"
proof (intro conjI impI)
  assume "plain_schema sch \<and> parse sch v = Return (Ok w)"
  with plain_schema_stable[of sch] show "parse sch w = Return (Ok w)" by blast
next
  assume a: "parse (object shp) v = Return (Ok w)"
  have "isPlainObject v = Return True"
  proof (rule ccontr)
    assume "isPlainObject v \<noteq> Return True"
    with isPlainObject_cases[of v] have "isPlainObject v = Return False" by simp
    with a show False by (simp add: parse_object_not_plain createErr_def)
  qed
  with a have "object_loop shp v [] = Return (Ok w)" by (simp add: parse_object_plain)
  then obtain obj where "w = Object NullPrototype obj"
    by (auto simp: object_loop_Ok_iff)
  then show "isPlainObject w = Return True" by (simp add: isPlainObject_eq)
qed

theorem validation_of_output_is_stable_witness:
  "plain_schema (object [(''a'', number), (''tags'', array string)]) \<and>
   parse (object [(''a'', number), (''tags'', array string)])
     (Object ObjectPrototype
        [(''z'', Boolean True), (''tags'', Array [String ''p'', String ''q'']),
         (''a'', Number (Finite 1))]) =
     Return (Ok (Object NullPrototype
        [(''a'', Number (Finite 1)), (''tags'', Array [String ''p'', String ''q''])])) \<and>
   parse (object [(''a'', number), (''tags'', array string)])
     (Object NullPrototype
        [(''a'', Number (Finite 1)), (''tags'', Array [String ''p'', String ''q''])]) =
     Return (Ok (Object NullPrototype
        [(''a'', Number (Finite 1)), (''tags'', Array [String ''p'', String ''q''])])) \<and>
   isPlainObject (Object NullPrototype
        [(''a'', Number (Finite 1)), (''tags'', Array [String ''p'', String ''q''])]) = Return True"
proof -
  let ?sch = "object [(''a'', number), (''tags'', array string)]"
  let ?v = "Object ObjectPrototype
        [(''z'', Boolean True), (''tags'', Array [String ''p'', String ''q'']),
         (''a'', Number (Finite 1))]"
  let ?w = "Object NullPrototype
        [(''a'', Number (Finite 1)), (''tags'', Array [String ''p'', String ''q''])]"
  have p: "plain_schema ?sch"
    by (intro plain_object) (auto intro: plain_schema.intros)
  have h: "parse ?sch ?v = Return (Ok ?w)"
    by (simp add: object_def array_def number_def string_def isPlainObject_def isNil_def
        array_loop.simps)
  from validation_of_output_is_stable [of ?sch ?v ?w "[(''a'', number), (''tags'', array string)]"]
    p h
  show ?thesis by blast
qed

section \<open>The primitive and wrapping validators\<close>

text \<open>
  C6. \<^verbatim>\<open>number().parse\<close> accepts exactly the finite numbers and returns \<^verbatim>\<open>Ok\<close> of the same
  value; on every other input (NaN, the infinities, a numeric string, anything that is not
  a number) it returns \<^verbatim>\<open>Err\<close> with the message "Expecting number", the empty path and the
  input.
\<close>

theorem number_accepts_exactly_finite:
  "parse number v =
     (case v of
        Number (Finite q) \<Rightarrow> Return (Ok v)
      | _ \<Rightarrow> Return (Err \<lparr>path = [], message = ''Expecting number'', input = v\<rparr>))"
  by (cases v rule: Number_isFinite.cases) (simp_all add: number_def createErr_def)

theorem number_accepts_exactly_finite_witness:
  "parse number (Number (Finite (314 / 100))) = Return (Ok (Number (Finite (314 / 100)))) \<and>
   parse number (Number NaN) =
     Return (Err \<lparr>path = [], message = ''Expecting number'', input = Number NaN\<rparr>) \<and>
   parse number (Number PosInfinity) =
     Return (Err \<lparr>path = [], message = ''Expecting number'', input = Number PosInfinity\<rparr>) \<and>
   parse number (Number NegInfinity) =
     Return (Err \<lparr>path = [], message = ''Expecting number'', input = Number NegInfinity\<rparr>) \<and>
   parse number (String ''1'') =
     Return (Err \<lparr>path = [], message = ''Expecting number'', input = String ''1''\<rparr>)"
  using number_accepts_exactly_finite [of "Number (Finite (314 / 100))"]
    number_accepts_exactly_finite [of "Number NaN"]
    number_accepts_exactly_finite [of "Number PosInfinity"]
    number_accepts_exactly_finite [of "Number NegInfinity"]
    number_accepts_exactly_finite [of "String ''1''"]
  by simp

text \<open>
  C7. \<^verbatim>\<open>isPlainObject\<close> holds exactly of the objects whose prototype is null or
  \<^verbatim>\<open>Object.prototype\<close>, and on every input of which it does not hold \<^verbatim>\<open>object(shape).parse\<close>
  returns at once \<^verbatim>\<open>Err\<close> with the message "Expecting object", the empty path and the input,
  whatever the shape: so for \<^verbatim>\<open>null\<close>, \<^verbatim>\<open>undefined\<close>, every array, every date and every
  object with another prototype.
\<close>

theorem object_rejects_non_plain:
  "isPlainObject v =
     Return (case v of Object p props \<Rightarrow> p = NullPrototype \<or> p = ObjectPrototype | _ \<Rightarrow> False) \<and>
   (isPlainObject v = Return False \<longrightarrow>
      parse (object shp) v =
        Return (Err \<lparr>path = [], message = ''Expecting object'', input = v\<rparr>)) \<and>
   parse (object shp) (Array xs) =
     Return (Err \<lparr>path = [], message = ''Expecting object'', input = Array xs\<rparr>) \<and>
   parse (object shp) (Date t) =
     Return (Err \<lparr>path = [], message = ''Expecting object'', input = Date t\<rparr>) \<and>
   parse (object shp) (Object (OtherPrototype c) props) =
     Return (Err \<lparr>path = [], message = ''Expecting object'',
                  input = Object (OtherPrototype c) props\<rparr>)"
  by (simp add: isPlainObject_eq object_def createErr_def)

theorem object_rejects_non_plain_witness:
  "parse (object [(''a'', number)]) (Array [Number (Finite 1)]) =
     Return (Err \<lparr>path = [], message = ''Expecting object'', input = Array [Number (Finite 1)]\<rparr>) \<and>
   parse (object [(''a'', number)]) (Date (Finite 0)) =
     Return (Err \<lparr>path = [], message = ''Expecting object'', input = Date (Finite 0)\<rparr>) \<and>
   parse (object [(''a'', number)]) (Object (OtherPrototype ''Point'') [(''a'', Number (Finite 1))]) =
     Return (Err \<lparr>path = [], message = ''Expecting object'',
                  input = Object (OtherPrototype ''Point'') [(''a'', Number (Finite 1))]\<rparr>) \<and>
   isPlainObject Null = Return False \<and>
   parse (object [(''a'', number)]) Null =
     Return (Err \<lparr>path = [], message = ''Expecting object'', input = Null\<rparr>) \<and>
   isPlainObject Undefined = Return False \<and>
   parse (object [(''a'', number)]) Undefined =
     Return (Err \<lparr>path = [], message = ''Expecting object'', input = Undefined\<rparr>)"
  using object_rejects_non_plain
      [of "Array [Number (Finite 1)]" "[(''a'', number)]" "[Number (Finite 1)]" "Finite 0"
        "''Point''" "[(''a'', Number (Finite 1))]"]
    object_rejects_non_plain [of Null "[(''a'', number)]"]
    object_rejects_non_plain [of Undefined "[(''a'', number)]"]
  by simp

text \<open>
  C5. On an absent input (\<^verbatim>\<open>undefined\<close> or \<^verbatim>\<open>null\<close>) \<^verbatim>\<open>defaulted(s, d).parse\<close> returns
  \<^verbatim>\<open>Ok(d)\<close>, whatever \<^verbatim>\<open>s\<close> and \<^verbatim>\<open>d\<close> are, so \<^verbatim>\<open>d\<close> is not validated against \<^verbatim>\<open>s\<close>; on any
  other input it returns what \<^verbatim>\<open>s.parse\<close> returns; its type label is that of \<^verbatim>\<open>s\<close>.
\<close>

theorem defaulted_parse:
  "(isNil v \<longrightarrow> parse (defaulted sch d) v = Return (Ok d)) \<and>
   (\<not> isNil v \<longrightarrow> parse (defaulted sch d) v = parse sch v) \<and>
   type (defaulted sch d) = type sch"
  by (simp add: defaulted_def)

theorem defaulted_parse_witness:
  "isNil Undefined \<and>
   parse (defaulted number (Number (Finite 0))) Undefined = Return (Ok (Number (Finite 0))) \<and>
   isNil Null \<and>
   parse (defaulted number (String ''x'')) Null = Return (Ok (String ''x'')) \<and>
   \<not> isNil (Number (Finite 5)) \<and>
   parse (defaulted number (Number (Finite 0))) (Number (Finite 5)) = Return (Ok (Number (Finite 5))) \<and>
   type (defaulted number (Number (Finite 0))) = ''number''"
  using defaulted_parse [of Undefined number "Number (Finite 0)"]
    defaulted_parse [of Null number "String ''x''"]
    defaulted_parse [of "Number (Finite 5)" number "Number (Finite 0)"]
  by (simp add: isNil_def number_def)

section \<open>The option wrapper\<close>

lemma map_result_Ok: "map_result (Ok v) fn = Ok (fn v)"
  by (simp add: map_result_def)

lemma map_result_Err: "map_result (Err e) fn = Err e"
  by (simp add: map_result_def)

lemma parse_array_Ok:
  "parse (array sch) v = Return (Ok w) \<Longrightarrow> \<exists>ys. w = Array ys"
proof -
  assume a: "parse (array sch) v = Return (Ok w)"
  have "isArray v"
  proof (rule ccontr)
    assume "\<not> isArray v"
    with a show False by (simp add: parse_array_not_Array createErr_def)
  qed
  then obtain xs where v: "v = Array xs" by (cases v) auto
  with a have "array_loop sch xs 0 (replicate (length xs) Undefined) = Return (Ok w)"
    by (simp add: parse_array_Array)
  from array_loop_Ok[OF this] show ?thesis by auto
qed

lemma parse_object_Ok:
  "parse (object shp) v = Return (Ok w) \<Longrightarrow> \<exists>obj. w = Object NullPrototype obj"
proof -
  assume a: "parse (object shp) v = Return (Ok w)"
  have "isPlainObject v = Return True"
  proof (rule ccontr)
    assume "isPlainObject v \<noteq> Return True"
    with isPlainObject_cases[of v] have "isPlainObject v = Return False" by simp
    with a show False by (simp add: parse_object_not_plain createErr_def)
  qed
  with a have "object_loop shp v [] = Return (Ok w)" by (simp add: parse_object_plain)
  then show ?thesis by (auto simp: object_loop_Ok_iff)
qed

lemma built_Ok_not_nil:
  "built sch \<Longrightarrow> (\<forall>v w. \<not> isNil v \<longrightarrow> parse sch v = Return (Ok w) \<longrightarrow> \<not> isNil w)"
proof (induction rule: built.induct)
  case built_string
  then show ?case by (auto simp: string_def createErr_def split: if_splits)
next
  case built_number
  then show ?case by (auto simp: number_def createErr_def split: if_splits)
next
  case built_boolean
  then show ?case by (auto simp: boolean_def createErr_def split: if_splits)
next
  case built_date
  show ?case
  proof (intro allI impI)
    fix v w assume "parse date v = Return (Ok w)"
    then obtain t where "w = Date t"
      by (cases v rule: instanceofDate.cases)
        (auto simp: date_def createErr_def split: if_splits)
    then show "\<not> isNil w" by (simp add: isNil_iff)
  qed
next
  case (built_array sch)
  show ?case
  proof (intro allI impI)
    fix v w assume "parse (array sch) v = Return (Ok w)"
    from parse_array_Ok[OF this] show "\<not> isNil w" by (auto simp: isNil_iff)
  qed
next
  case (built_object shp)
  show ?case
  proof (intro allI impI)
    fix v w assume "parse (object shp) v = Return (Ok w)"
    from parse_object_Ok[OF this] show "\<not> isNil w" by (auto simp: isNil_iff)
  qed
next
  case (built_optional sch)
  show ?case
  proof (intro allI impI)
    fix v w assume nn: "\<not> isNil v" and a: "parse (optional sch) v = Return (Ok w)"
    then obtain p where p: "parse sch v = Return p" "map_result p from_option = Ok w"
      by (cases "parse sch v") (auto simp: optional_def)
    then obtain r where "parse sch v = Return (Ok r)" "w = from_option r"
      by (cases p) (auto simp: map_result_Ok map_result_Err)
    then show "\<not> isNil w" by (simp add: from_option_def NoneV_def SomeV_def isNil_iff)
  qed
next
  case (built_defaulted sch defaultValue)
  then show ?case by (simp add: defaulted_def)
qed

text \<open>
  C4 (amended). On an absent input \<^verbatim>\<open>optional(s).parse\<close> returns \<^verbatim>\<open>Ok\<close> of the empty option,
  whatever \<^verbatim>\<open>s\<close> is. On any other input it returns what \<^verbatim>\<open>s.parse\<close> throws, or the error of
  \<^verbatim>\<open>s.parse\<close> as it is, or the success value of \<^verbatim>\<open>s.parse\<close> passed through \<^verbatim>\<open>from\<close>: the
  present option around the value when the value is not \<^verbatim>\<open>null\<close> or \<^verbatim>\<open>undefined\<close>, the empty
  option when it is. For a child built by the constructors of schema.ts the value of a
  success on a present input is never \<^verbatim>\<open>null\<close> or \<^verbatim>\<open>undefined\<close>, so it is always wrapped.
\<close>

theorem optional_parse:
  "(isNil v \<longrightarrow> parse (optional sch) v = Return (Ok NoneV)) \<and>
   (\<not> isNil v \<longrightarrow>
      parse (optional sch) v =
        (case parse sch v of
           Throw x \<Rightarrow> Throw x
         | Return (Err e) \<Rightarrow> Return (Err e)
         | Return (Ok r) \<Rightarrow> Return (Ok (if isNil r then NoneV else SomeV r)))) \<and>
   (built sch \<and> \<not> isNil v \<and> parse sch v = Return (Ok r) \<longrightarrow>
      parse (optional sch) v = Return (Ok (SomeV r)))"
proof (intro conjI impI)
  assume "isNil v"
  then show "parse (optional sch) v = Return (Ok NoneV)" by (simp add: optional_def)
next
  assume "\<not> isNil v"
  then show "parse (optional sch) v =
        (case parse sch v of
           Throw x \<Rightarrow> Throw x
         | Return (Err e) \<Rightarrow> Return (Err e)
         | Return (Ok r) \<Rightarrow> Return (Ok (if isNil r then NoneV else SomeV r)))"
    by (simp add: optional_def map_result_Ok map_result_Err from_option_def
        split: outcome.splits result.splits)
next
  assume a: "built sch \<and> \<not> isNil v \<and> parse sch v = Return (Ok r)"
  with built_Ok_not_nil[of sch] have "\<not> isNil r" by blast
  with a show "parse (optional sch) v = Return (Ok (SomeV r))"
    by (simp add: optional_def map_result_Ok from_option_def)
qed

theorem optional_parse_witness:
  "isNil Undefined \<and> parse (optional number) Undefined = Return (Ok NoneV) \<and>
   \<not> isNil (String ''x'') \<and>
   parse (optional number) (String ''x'') =
     Return (Err \<lparr>path = [], message = ''Expecting number'', input = String ''x''\<rparr>) \<and>
   built number \<and> \<not> isNil (Number (Finite 5)) \<and>
   parse number (Number (Finite 5)) = Return (Ok (Number (Finite 5))) \<and>
   parse (optional number) (Number (Finite 5)) = Return (Ok (SomeV (Number (Finite 5))))"
proof -
  have a: "isNil Undefined" "\<not> isNil (String ''x'')" "\<not> isNil (Number (Finite 5))"
    by (simp_all add: isNil_def)
  have b: "parse number (Number (Finite 5)) = Return (Ok (Number (Finite 5)))"
    "parse number (String ''x'') =
       Return (Err \<lparr>path = [], message = ''Expecting number'', input = String ''x''\<rparr>)"
    by (simp_all add: number_def createErr_def)
  from optional_parse [of Undefined number] optional_parse [of "String ''x''" number]
    optional_parse [of "Number (Finite 5)" number "Number (Finite 5)"] a b built_number
  show ?thesis by simp
qed

text \<open>
  The claim as written, that every success of the child is wrapped in the present option,
  fails for a child that succeeds with \<^verbatim>\<open>null\<close>: \<^verbatim>\<open>from\<close> turns it into the empty option.
\<close>

theorem optional_wraps_every_success_counterexample:
  "\<not> isNil (String ''x'') \<and>
   parse null_schema (String ''x'') = Return (Ok Null) \<and>
   parse (optional null_schema) (String ''x'') = Return (Ok NoneV) \<and>
   parse (optional null_schema) (String ''x'') \<noteq> Return (Ok (SomeV Null))"
  by (simp add: optional_def null_schema_def map_result_def from_option_def isNil_def
      NoneV_def SomeV_def)

section \<open>No validator throws\<close>








lemma oxido_isErr_simps: "oxido_isErr (Ok v) = False" "oxido_isErr (Err e) = True"
  by (simp_all add: oxido_isErr_def isErr_def)

lemma oxido_unwrap_Ok: "oxido_unwrap (Ok v) = ([Unwrap], Return v)"
  by (simp add: oxido_unwrap_def unwrap_def)

lemma oxido_unwrapErr_Err: "oxido_unwrapErr (Err e) = ([UnwrapErr], Return e)"
  by (simp add: oxido_unwrapErr_def unwrapErr_def)

lemma mod_isPlainObject_eq: "mod_isPlainObject v = isPlainObject v"
  by (simp add: mod_isPlainObject_def isPlainObject_def isNil_def)

lemma mod_array_loop_Ok_step:
  "i < length inp \<Longrightarrow> parse sch (inp ! i) = (t, Return (Ok v)) \<Longrightarrow>
   mod_array_loop sch inp i arr trace =
     mod_array_loop sch inp (i + 1) (arr[i := v]) (trace @ t @ [Unwrap])"
  by (subst mod_array_loop.simps) (simp add: oxido_isErr_simps oxido_unwrap_Ok)

lemma mod_array_loop_Err_step:
  "i < length inp \<Longrightarrow> parse sch (inp ! i) = (t, Return (Err e)) \<Longrightarrow>
   mod_array_loop sch inp i arr trace =
     (trace @ t @ [UnwrapErr], Return (Err (e\<lparr>path := toString i # path e\<rparr>)))"
  by (subst mod_array_loop.simps) (simp add: oxido_isErr_simps oxido_unwrapErr_Err)

lemma mod_array_loop_Throw_step:
  "i < length inp \<Longrightarrow> parse sch (inp ! i) = (t, Throw x) \<Longrightarrow>
   mod_array_loop sch inp i arr trace = (trace @ t, Throw x)"
  by (subst mod_array_loop.simps) simp

lemma mod_array_loop_done:
  "\<not> i < length inp \<Longrightarrow> mod_array_loop sch inp i arr trace = (trace, Return (Ok (Array arr)))"
  by (subst mod_array_loop.simps) simp

lemma mod_object_loop_Ok_step:
  "getProp inp k = Return field \<Longrightarrow> parse sch field = (t, Return (Ok v)) \<Longrightarrow>
   mod_object_loop ((k, sch) # rest) inp obj trace =
     mod_object_loop rest inp (assign obj k v) (trace @ t @ [Unwrap])"
  by (simp add: oxido_isErr_simps oxido_unwrap_Ok)

lemma mod_object_loop_Err_step:
  "getProp inp k = Return field \<Longrightarrow> parse sch field = (t, Return (Err e)) \<Longrightarrow>
   mod_object_loop ((k, sch) # rest) inp obj trace =
     (trace @ t @ [UnwrapErr], Return (Err (e\<lparr>path := k # path e\<rparr>)))"
  by (simp add: oxido_isErr_simps oxido_unwrapErr_Err)

lemma mod_object_loop_Throw_step:
  "getProp inp k = Return field \<Longrightarrow> parse sch field = (t, Throw x) \<Longrightarrow>
   mod_object_loop ((k, sch) # rest) inp obj trace = (trace @ t, Throw x)"
  by simp













section \<open>The two modules compared\<close>

lemma agree_Ok: "agree (Return (Ok v)) q \<longleftrightarrow> q = Return (Ok v)"
proof (cases q)
  case (Throw x)
  then show ?thesis by simp
next
  case (Return r)
  then show ?thesis by (cases r) auto
qed

lemma agree_ErrD:
  "agree (Return (Err e)) q \<Longrightarrow>
   \<exists>d. q = Return (Err d) \<and> path d = path e \<and> input d = input e \<and>
       message d = mod_message (message e)"
proof (cases q)
  case (Throw x)
  moreover assume "agree (Return (Err e)) q"
  ultimately show ?thesis by simp
next
  case (Return r)
  moreover assume "agree (Return (Err e)) q"
  ultimately show ?thesis by (cases r) auto
qed

lemma agree_ThrowD: "agree (Throw x) q \<Longrightarrow> q = Throw x"
  by (cases q) auto

lemma arrays_agree:
  "\<forall>v. agree (parse s v) (snd (parse m v)) \<Longrightarrow>
   agree (array_loop s inp i arr) (snd (mod_array_loop m inp i arr trace))"
proof (induction s inp i arr arbitrary: trace rule: array_loop.induct)
  case (1 s inp i arr)
  show ?case
  proof (cases "i < length inp")
    case False
    then show ?thesis
      by (subst array_loop.simps) (simp add: mod_array_loop_done)
  next
    case lt: True
    obtain t q where q: "parse m (inp ! i) = (t, q)" by (cases "parse m (inp ! i)")
    from "1.prems" q have ag: "agree (parse s (inp ! i)) q" by (metis snd_conv)
    show ?thesis
    proof (cases "parse s (inp ! i)")
      case (Throw x)
      with ag have "q = Throw x" by (simp add: agree_ThrowD)
      with Throw q lt show ?thesis
        by (subst array_loop.simps) (simp add: mod_array_loop_Throw_step)
    next
      case (Return r)
      show ?thesis
      proof (cases r)
        case (Err e)
        with Return ag obtain d where d: "q = Return (Err d)" "path d = path e"
          "input d = input e" "message d = mod_message (message e)"
          by (auto dest: agree_ErrD)
        with Return Err q lt show ?thesis
          by (subst array_loop.simps) (simp add: mod_array_loop_Err_step)
      next
        case (Ok v)
        with Return ag have "q = Return (Ok v)" by (simp add: agree_Ok)
        with q have step: "mod_array_loop m inp i arr trace =
            mod_array_loop m inp (i + 1) (arr[i := v]) (trace @ t @ [Unwrap])"
          using lt by (simp add: mod_array_loop_Ok_step)
        have "agree (array_loop s inp (i + 1) (arr[i := v]))
                (snd (mod_array_loop m inp (i + 1) (arr[i := v]) (trace @ t @ [Unwrap])))"
          by (rule "1.IH"[OF lt Return Ok "1.prems"])
        with Return Ok lt step show ?thesis
          by (subst array_loop.simps) simp
      qed
    qed
  qed
qed

lemma objects_agree:
  "list_all2 (\<lambda>f g. fst f = fst g \<and> (\<forall>v. agree (parse (snd f) v) (snd (parse (snd g) v)))) shp mshp \<Longrightarrow>
   agree (object_loop shp inp obj) (snd (mod_object_loop mshp inp obj trace))"
proof (induction shp mshp arbitrary: obj trace rule: list_all2_induct)
  case Nil
  then show ?case by simp
next
  case (Cons f shp g mshp)
  obtain k s where f: "f = (k, s)" by (cases f)
  obtain k' m where g: "g = (k', m)" by (cases g)
  from Cons.hyps(1) f g have k: "k' = k" and sm: "\<forall>v. agree (parse s v) (snd (parse m v))"
    by simp_all
  show ?case
  proof (cases "getProp inp k")
    case (Throw x)
    with f g k show ?thesis by simp
  next
    case gp: (Return field)
    obtain t q where q: "parse m field = (t, q)" by (cases "parse m field")
    from sm q have ag: "agree (parse s field) q" by (metis snd_conv)
    show ?thesis
    proof (cases "parse s field")
      case (Throw x)
      with ag have "q = Throw x" by (simp add: agree_ThrowD)
      with Throw q gp f g k show ?thesis by simp
    next
      case (Return r)
      show ?thesis
      proof (cases r)
        case (Err e)
        with Return ag obtain d where d: "q = Return (Err d)" "path d = path e"
          "input d = input e" "message d = mod_message (message e)"
          by (auto dest: agree_ErrD)
        with Return Err q gp f g k show ?thesis
          by (simp add: mod_object_loop_Err_step del: mod_object_loop.simps)
      next
        case (Ok v)
        with Return ag have "q = Return (Ok v)" by (simp add: agree_Ok)
        with q gp have step: "mod_object_loop ((k, m) # mshp) inp obj trace =
            mod_object_loop mshp inp (assign obj k v) (trace @ t @ [Unwrap])"
          by (simp add: mod_object_loop_Ok_step del: mod_object_loop.simps)
        have "agree (object_loop shp inp (assign obj k v))
                (snd (mod_object_loop mshp inp (assign obj k v) (trace @ t @ [Unwrap])))"
          by (rule Cons.IH)
        with Return Ok gp f g k step show ?thesis by simp
      qed
    qed
  qed
qed

lemma same_build_agree:
  "same_build s m \<Longrightarrow> type s = type m \<and> (\<forall>v. agree (parse s v) (snd (parse m v)))"
proof (induction rule: same_build.induct)
  case same_string
  then show ?case
    by (simp add: string_def mod_string_def createErr_def mod_createErr_def mod_message_def)
next
  case same_number
  then show ?case
    by (simp add: number_def mod_number_def createErr_def mod_createErr_def mod_message_def)
next
  case same_boolean
  then show ?case
    by (simp add: boolean_def mod_boolean_def createErr_def mod_createErr_def mod_message_def)
next
  case same_date
  have "agree (parse date v) (snd (parse mod_date v))" for v
    by (cases v rule: instanceofDate.cases)
      (simp_all add: date_def mod_date_def createErr_def mod_createErr_def mod_message_def)
  then show ?case by (simp add: date_def mod_date_def)
next
  case (same_array s m)
  have "agree (parse (array s) v) (snd (parse (mod_array m) v))" for v
  proof (cases v)
    case (Array xs)
    with arrays_agree[of s m xs 0 "replicate (length xs) Undefined" "[]"] same_array.IH
    show ?thesis by (simp add: array_def mod_array_def)
  qed (simp_all add: array_def mod_array_def createErr_def mod_createErr_def mod_message_def)
  with same_array.IH show ?case by (simp add: array_def mod_array_def)
next
  case (same_object shp mshp)
  have l: "list_all2 (\<lambda>f g. fst f = fst g \<and> (\<forall>v. agree (parse (snd f) v) (snd (parse (snd g) v))))
             shp mshp"
    using same_object by (simp add: list_all2_conv_all_nth)
  have "agree (parse (object shp) v) (snd (parse (mod_object mshp) v))" for v
  proof (cases "isPlainObject v = Return True")
    case False
    with isPlainObject_cases[of v] show ?thesis
      by (simp add: object_def mod_object_def mod_isPlainObject_eq createErr_def
          mod_createErr_def mod_message_def)
  next
    case True
    with objects_agree[OF l, of v "[]" "[]"] show ?thesis
      by (simp add: object_def mod_object_def mod_isPlainObject_eq)
  qed
  then show ?case by (simp add: object_def mod_object_def)
next
  case (same_defaulted s m d)
  then show ?case by (simp add: defaulted_def mod_defaulted_def isNil_def)
qed

text \<open>
  C9 (amended). Both modules spread the child's fields in \<^verbatim>\<open>optional\<close>: the label is
  \<^verbatim>\<open>option<...>\<close> around the child's and the shape is the child's. The modules differ in the
  messages of \<^verbatim>\<open>string\<close> and \<^verbatim>\<open>number\<close>. For two schemas built in the same way from \<^verbatim>\<open>string\<close>,
  \<^verbatim>\<open>number\<close>, \<^verbatim>\<open>boolean\<close>, \<^verbatim>\<open>date\<close>, \<^verbatim>\<open>array\<close>, \<^verbatim>\<open>object\<close> and \<^verbatim>\<open>defaulted\<close>, one in each module,
  the type labels are equal and on every input both succeed with the same value or both fail
  with the same path and offending input, the message of mod.ts being that of schema.ts
  with "Expecting string" replaced by "Not a string" and "Expecting number" by
  "Expecting finite number".
\<close>

theorem modules_agree_up_to_messages:
  "(same_build s m \<longrightarrow> type s = type m \<and> agree (parse s v) (snd (parse m v))) \<and>
   type (optional s) = ''option<'' @ type s @ ''>'' \<and>
   shape (optional s) = shape s \<and>
   type (mod_optional oSome oNone m) = ''option<'' @ type m @ ''>'' \<and>
   shape (mod_optional oSome oNone m) = shape m"
  using same_build_agree[of s m] by (simp add: optional_def mod_optional_def)

theorem modules_agree_up_to_messages_witness:
  "same_build (object [(''n'', array number)]) (mod_object [(''n'', mod_array mod_number)]) \<and>
   parse (object [(''n'', array number)])
     (Object ObjectPrototype [(''n'', Array [String ''x''])]) =
     Return (Err \<lparr>path = [''n'', ''0''], message = ''Expecting number'', input = String ''x''\<rparr>) \<and>
   snd (parse (mod_object [(''n'', mod_array mod_number)])
     (Object ObjectPrototype [(''n'', Array [String ''x''])])) =
     Return (Err \<lparr>path = [''n'', ''0''], message = ''Expecting finite number'',
                  input = String ''x''\<rparr>) \<and>
   agree (parse (object [(''n'', array number)])
            (Object ObjectPrototype [(''n'', Array [String ''x''])]))
         (snd (parse (mod_object [(''n'', mod_array mod_number)])
            (Object ObjectPrototype [(''n'', Array [String ''x''])]))) \<and>
   shape (optional (object [(''n'', array number)])) = Some [(''n'', array number)]"
proof -
  let ?s = "object [(''n'', array number)]"
  let ?m = "mod_object [(''n'', mod_array mod_number)]"
  let ?v = "Object ObjectPrototype [(''n'', Array [String ''x''])]"
  have sb: "same_build ?s ?m"
    by (intro same_object) (auto intro: same_build.intros)
  have p: "parse ?s ?v =
     Return (Err \<lparr>path = [''n'', ''0''], message = ''Expecting number'', input = String ''x''\<rparr>)"
    by (simp add: object_def array_def number_def isPlainObject_def isNil_def createErr_def
        array_loop.simps toString.simps digit_def)
  have q: "snd (parse ?m ?v) =
     Return (Err \<lparr>path = [''n'', ''0''], message = ''Expecting finite number'',
                  input = String ''x''\<rparr>)"
    by (simp add: mod_object_def mod_array_def mod_number_def mod_isPlainObject_def
        mod_createErr_def mod_array_loop.simps oxido_isErr_simps oxido_unwrapErr_Err
        toString.simps digit_def)
  have sh: "shape ?s = Some [(''n'', array number)]" by (simp add: object_def)
  from modules_agree_up_to_messages [of ?s ?m ?v SomeV NoneV] sb p q sh show ?thesis
    by simp
qed

text \<open>
  The claim as written, that the validators of the two modules return identical results,
  fails for \<^verbatim>\<open>string()\<close> on the number 1 and for \<^verbatim>\<open>number()\<close> on the string "1": the messages
  differ.
\<close>

theorem modules_extensionally_equal_counterexample:
  "parse string (Number (Finite 1)) =
     Return (Err \<lparr>path = [], message = ''Expecting string'', input = Number (Finite 1)\<rparr>) \<and>
   snd (parse mod_string (Number (Finite 1))) =
     Return (Err \<lparr>path = [], message = ''Not a string'', input = Number (Finite 1)\<rparr>) \<and>
   snd (parse mod_string (Number (Finite 1))) \<noteq> parse string (Number (Finite 1)) \<and>
   parse number (String ''1'') =
     Return (Err \<lparr>path = [], message = ''Expecting number'', input = String ''1''\<rparr>) \<and>
   snd (parse mod_number (String ''1'')) =
     Return (Err \<lparr>path = [], message = ''Expecting finite number'', input = String ''1''\<rparr>)"
  by (simp add: string_def mod_string_def number_def mod_number_def createErr_def
      mod_createErr_def)

end
